theory Spec2Isabelle
  imports Complex_Main "HOL-Library.Word" "HOL-Library.Log_Nat"
begin

section \<open>Single-precision arithmetic\<close>

text \<open>
  The conversion macro and the loop body of \<^verbatim>\<open>main\<close> compute in C \<^verbatim>\<open>float\<close>.
  A finite binary32 value is represented by the rational number it denotes, and every
  operation is the exact operation followed by rounding to the nearest binary32 value,
  ties to even (the IEEE 754 default rounding). Precision is 24 bits, the least normal
  exponent is -126 (below it the spacing stays \<open>2 ^ -149\<close>: subnormals). Infinities and
  NaN are not represented: they need a magnitude of \<open>2 ^ 128\<close> or a division by zero,
  and the program divides by the literal 65536.0f only.
\<close>

type_synonym f32 = rat

text \<open>\<open>ilog2 x\<close> is the binary exponent of a positive rational: \<open>2 ^ e \<le> x < 2 ^ (e + 1)\<close>.\<close>

definition ilog2 :: "rat \<Rightarrow> int" where
  "ilog2 x =
     (let (p, q) = quotient_of x; d = bitlen p - bitlen q
      in if 2 powi d \<le> x then d else d - 1)"

text \<open>Rounding of a rational to the nearest integer, ties to even.\<close>

definition round_half_even :: "rat \<Rightarrow> int" where
  "round_half_even x =
     (let f = \<lfloor>x\<rfloor>; d = x - of_int f
      in if d < 1 / 2 then f
         else if 1 / 2 < d then f + 1
         else if even f then f else f + 1)"

definition f32_round :: "rat \<Rightarrow> f32" where
  "f32_round x =
     (if x = 0 then 0
      else let e = max (ilog2 \<bar>x\<bar>) (- 126); ulp = 2 powi (e - 23)
           in sgn x * of_int (round_half_even (\<bar>x\<bar> / ulp)) * ulp)"

definition f32_of_int :: "int \<Rightarrow> f32" where
  "f32_of_int n = f32_round (of_int n)"

definition f32_mul :: "f32 \<Rightarrow> f32 \<Rightarrow> f32" where
  "f32_mul x y = f32_round (x * y)"

definition f32_div :: "f32 \<Rightarrow> f32 \<Rightarrow> f32" where
  "f32_div x y = f32_round (x / y)"

definition f32_sub :: "f32 \<Rightarrow> f32 \<Rightarrow> f32" where
  "f32_sub x y = f32_round (x - y)"

text \<open>The cast \<^verbatim>\<open>(int) x\<close> of a float discards the fraction (rounds towards zero).\<close>

definition f32_to_int :: "f32 \<Rightarrow> int" where
  "f32_to_int x = (if 0 \<le> x then \<lfloor>x\<rfloor> else \<lceil>x\<rceil>)"

section \<open>Conversion of a raw code and formatting of a reading\<close>

type_synonym u8 = "8 word"
type_synonym u16 = "16 word"

text \<open>
  \<^verbatim>\<open>#define ConvertRawADCToVoltage(adc_value) ((((float)(adc_value)) * (1.0f)) / 65536.0f)\<close>
\<close>

definition ConvertRawADCToVoltage :: "int \<Rightarrow> f32" where
  "ConvertRawADCToVoltage adc_value = f32_div (f32_mul (f32_of_int adc_value) 1) 65536"

text \<open>
  The three locals of the loop body, for the raw code read through \<^verbatim>\<open>adc_data_ptr\<close>:
  \<^verbatim>\<open>float voltage = ConvertRawADCToVoltage((int)(*adc_data_ptr));\<close>
  \<^verbatim>\<open>int integer_part = (int) voltage;\<close>
  \<^verbatim>\<open>int fractional_part = (int)((voltage - integer_part) * 1000);\<close>
  In the last line both \<^verbatim>\<open>int\<close> operands are converted to \<^verbatim>\<open>float\<close> first.
\<close>

definition voltage :: "u16 \<Rightarrow> f32" where
  "voltage raw = ConvertRawADCToVoltage (uint raw)"

definition integer_part :: "u16 \<Rightarrow> int" where
  "integer_part raw = f32_to_int (voltage raw)"

definition fractional_part :: "u16 \<Rightarrow> int" where
  "fractional_part raw =
     f32_to_int (f32_mul (f32_sub (voltage raw) (f32_of_int (integer_part raw)))
                         (f32_of_int 1000))"

text \<open>
  The console formatting of \<^verbatim>\<open>printf\<close> and \<^verbatim>\<open>xil_printf\<close> for the two conversions the
  program uses: \<^verbatim>\<open>%d\<close> prints a signed decimal number, \<^verbatim>\<open>%03d\<close> pads it with zeros
  on the left (after the sign) to a width of three characters.
\<close>

definition digit_char :: "nat \<Rightarrow> char" where
  "digit_char d = char_of (48 + d)"

fun dec_digits :: "nat \<Rightarrow> string" where
  "dec_digits n =
     (if n < 10 then [digit_char n] else dec_digits (n div 10) @ [digit_char (n mod 10)])"

declare dec_digits.simps [simp del]

definition fmt_d :: "int \<Rightarrow> string" where
  "fmt_d n = (if n < 0 then CHR ''-'' # dec_digits (nat (- n)) else dec_digits (nat n))"

definition fmt_03d :: "int \<Rightarrow> string" where
  "fmt_03d n =
     (if n < 0
      then CHR ''-'' # replicate (2 - length (dec_digits (nat (- n)))) CHR ''0''
             @ dec_digits (nat (- n))
      else replicate (3 - length (dec_digits (nat n))) CHR ''0'' @ dec_digits (nat n))"

abbreviation CR :: char where "CR \<equiv> CHR 0x0D"
abbreviation LF :: char where "LF \<equiv> CHR 0x0A"

text \<open>\<^verbatim>\<open>xil_printf("%d.%03d volts\r\n", integer_part, fractional_part);\<close>\<close>

definition volts_line :: "int \<Rightarrow> int \<Rightarrow> string" where
  "volts_line ip fp = fmt_d ip @ ''.'' @ fmt_03d fp @ '' volts'' @ [CR, LF]"

definition sample_line :: "u16 \<Rightarrow> string" where
  "sample_line raw = volts_line (integer_part raw) (fractional_part raw)"

section \<open>The environment of the program\<close>

text \<open>
  The headers of the board support package (\<^verbatim>\<open>xstatus.h\<close>, \<^verbatim>\<open>xparameters.h\<close>,
  \<^verbatim>\<open>xsysmon.h\<close>, \<^verbatim>\<open>xaxidma.h\<close>) are not part of the sources. The macros that select
  a mode, a channel, a direction or an interrupt mask stay symbolic; the status codes and
  device identifiers, which the program compares and prints, are parameters of the
  environment below.
\<close>

datatype seq_mode = XSM_SEQ_MODE_SAFE | XSM_SEQ_MODE_CONTINPASS
datatype seq_channel = XSM_SEQ_CH_VPVN
datatype dma_direction = XAXIDMA_DMA_TO_DEVICE | XAXIDMA_DEVICE_TO_DMA
datatype irq_mask = XAXIDMA_IRQ_ALL_MASK

record XSysMon_Config =
  BaseAddress :: nat

record XAxiDma_Config =
  BaseAddr :: nat

text \<open>
  Everything \<^verbatim>\<open>main\<close> observes from outside: the constants of the headers, the value
  every driver call returns, and the bytes the processor finds in memory once the cache
  range has been flushed. Polls are numbered from 0, acquisition cycles as well.
\<close>

record env =
  XST_SUCCESS :: int
  XST_FAILURE :: int
  XPAR_SYSMON_0_DEVICE_ID :: int
  XPAR_AXIDMA_0_DEVICE_ID :: int
  big_endian :: bool
  r_XSysMon_LookupConfig :: "int \<Rightarrow> XSysMon_Config option"
  r_XSysMon_CfgInitialize :: int
  r_XAxiDma_LookupConfig :: "int \<Rightarrow> XAxiDma_Config option"
  r_XAxiDma_CfgInitialize :: int
  r_XAxiDma_ResetIsDone :: "nat \<Rightarrow> bool"
  r_XAxiDma_SimpleTransfer :: "nat \<Rightarrow> int"
  r_XAxiDma_Busy :: "nat \<Rightarrow> nat \<Rightarrow> bool"
  memory :: "nat \<Rightarrow> nat \<Rightarrow> u8"

definition DMA_RX_BUFFER_ADDR :: nat where
  "DMA_RX_BUFFER_ADDR = 0x00100000"

definition MAX_PACKET_LENGTH :: nat where
  "MAX_PACKET_LENGTH = 512"

definition SYSMON_INSTANCE_ID :: "env \<Rightarrow> int" where
  "SYSMON_INSTANCE_ID env = XPAR_SYSMON_0_DEVICE_ID env"

definition AXI_DMA_INSTANCE_ID :: "env \<Rightarrow> int" where
  "AXI_DMA_INSTANCE_ID env = XPAR_AXIDMA_0_DEVICE_ID env"

text \<open>
  What the program does to the outside, in program order: one event for each call of a
  platform or driver function with its arguments (for a poll, also the answer), and one
  for each dereference of \<^verbatim>\<open>adc_data_ptr\<close>.
\<close>

datatype event =
    Init_platform
  | Print string
  | Printf string
  | Xil_printf string
  | XSysMon_LookupConfig int
  | XSysMon_CfgInitialize nat
  | XSysMon_SetSequencerMode seq_mode
  | XSysMon_SetAlarmEnables nat
  | XSysMon_SetSeqChEnables seq_channel
  | XSysMon_SetAdcClkDivisor nat
  | XAxiDma_LookupConfig int
  | XAxiDma_CfgInitialize
  | XAxiDma_Reset
  | XAxiDma_ResetIsDone bool
  | XAxiDma_IntrDisable irq_mask dma_direction
  | XAxiDma_SimpleTransfer nat nat dma_direction
  | XAxiDma_Busy dma_direction bool
  | Xil_DCacheFlushRange nat nat
  | Read_u16 nat
  | Usleep nat

text \<open>
  How a run of \<^verbatim>\<open>main\<close>, or of a part of it, ends: it returns a status, it spins
  forever in a polling loop (after the events listed, the same poll repeats without end),
  or it goes on to the next statement.
\<close>

datatype outcome = Exit int | Hang | Continue

section \<open>The program\<close>

subsection \<open>Polling loops\<close>

text \<open>
  \<^verbatim>\<open>while (!XAxiDma_ResetIsDone(&dma_instance)) { }\<close> and
  \<^verbatim>\<open>while (XAxiDma_Busy(&dma_instance, XAXIDMA_DEVICE_TO_DMA)) { }\<close>
  have no bound. Each returns the number of polls it made, or nothing when it never
  leaves the loop.
\<close>

partial_function (option) reset_wait :: "(nat \<Rightarrow> bool) \<Rightarrow> nat \<Rightarrow> nat option" where
  "reset_wait is_done k =
     (if \<not> is_done k then reset_wait is_done (Suc k) else Some (Suc k))"

partial_function (option) busy_wait :: "(nat \<Rightarrow> bool) \<Rightarrow> nat \<Rightarrow> nat option" where
  "busy_wait busy k = (if busy k then busy_wait busy (Suc k) else Some (Suc k))"

subsection \<open>Reading the buffer\<close>

text \<open>
  \<^verbatim>\<open>u16 *adc_data_ptr = (u16 *) DMA_RX_BUFFER_ADDR;\<close> reads two bytes at a time from
  the byte buffer the engine has filled. The byte order is the processor's.
\<close>

definition load_u16 :: "bool \<Rightarrow> (nat \<Rightarrow> u8) \<Rightarrow> nat \<Rightarrow> u16" where
  "load_u16 be mem a =
     (if be then word_cat (mem a) (mem (a + 1)) else word_cat (mem (a + 1)) (mem a))"

definition separator :: string where
  "separator = ''********************************'' @ [CR, LF]"

text \<open>
  \<^verbatim>\<open>for (int i = 0; i < 100; ++i) { ... xil_printf(...); adc_data_ptr++; }\<close>
  The pointer advances by one \<^verbatim>\<open>u16\<close>, two bytes.
\<close>

function sample_loop :: "bool \<Rightarrow> (nat \<Rightarrow> u8) \<Rightarrow> int \<Rightarrow> nat \<Rightarrow> event list" where
  "sample_loop be mem i adc_data_ptr =
     (if i < 100
      then [Read_u16 adc_data_ptr, Xil_printf (sample_line (load_u16 be mem adc_data_ptr))]
             @ sample_loop be mem (i + 1) (adc_data_ptr + 2)
      else [])"
  by pat_completeness auto
termination
  by (relation "measure (\<lambda>(be, mem, i, p). nat (100 - i))") auto

declare sample_loop.simps [simp del]

subsection \<open>One acquisition cycle: the body of \<^verbatim>\<open>while (1)\<close>\<close>

definition transfer_failed_msg :: "int \<Rightarrow> string" where
  "transfer_failed_msg status =
     ''DMA transfer initiation failed with status: '' @ fmt_d status @ [CR, LF]"

definition cycle :: "env \<Rightarrow> nat \<Rightarrow> event list \<times> outcome" where
  "cycle env n =
     (let dma_rx_buffer_ptr = DMA_RX_BUFFER_ADDR;
          adc_data_ptr = DMA_RX_BUFFER_ADDR;
          status = r_XAxiDma_SimpleTransfer env n;
          t = [XAxiDma_SimpleTransfer DMA_RX_BUFFER_ADDR MAX_PACKET_LENGTH XAXIDMA_DEVICE_TO_DMA]
      in if status \<noteq> XST_SUCCESS env
         then (t @ [Printf (transfer_failed_msg status)], Exit (XST_FAILURE env))
         else case busy_wait (r_XAxiDma_Busy env n) 0 of
                None \<Rightarrow> (t, Hang)
              | Some k \<Rightarrow>
                  (t @ map (\<lambda>j. XAxiDma_Busy XAXIDMA_DEVICE_TO_DMA (r_XAxiDma_Busy env n j)) [0..<k]
                     @ [Xil_DCacheFlushRange dma_rx_buffer_ptr MAX_PACKET_LENGTH]
                     @ sample_loop (big_endian env) (memory env n) 0 adc_data_ptr
                     @ [Xil_printf separator, Usleep 500000],
                   Continue))"

text \<open>
  The loop never ends by itself. \<open>main_loop env fuel n\<close> observes at most \<open>fuel\<close>
  cycles from cycle \<open>n\<close> on; the outcome \<open>Continue\<close> then says that the loop is still
  running.
\<close>

fun main_loop :: "env \<Rightarrow> nat \<Rightarrow> nat \<Rightarrow> event list \<times> outcome" where
  "main_loop env 0 n = ([], Continue)"
| "main_loop env (Suc fuel) n =
     (let (t, out) = cycle env n
      in if out = Continue
         then (let (t', out') = main_loop env fuel (Suc n) in (t @ t', out'))
         else (t, out))"

subsection \<open>Initialization: \<^verbatim>\<open>main\<close> up to the loop\<close>

definition no_config_msg :: "int \<Rightarrow> string" where
  "no_config_msg dev = ''No config found for DMA device ID: '' @ fmt_d dev @ [CR, LF]"

definition init_failed_msg :: "int \<Rightarrow> string" where
  "init_failed_msg status =
     ''DMA initialization failed with status: '' @ fmt_d status @ [CR, LF]"

definition sysmon_configuration :: "event list" where
  "sysmon_configuration =
     [XSysMon_SetSequencerMode XSM_SEQ_MODE_SAFE,
      XSysMon_SetAlarmEnables 0x0,
      XSysMon_SetSeqChEnables XSM_SEQ_CH_VPVN,
      XSysMon_SetAdcClkDivisor 32,
      XSysMon_SetSequencerMode XSM_SEQ_MODE_CONTINPASS]"

text \<open>
  The source calls \<^verbatim>\<open>XSysMon_CfgInitialize(&sysmon_instance, sysmon_config_ptr,
  sysmon_config_ptr->BaseAddress);\<close> as a statement: the status it returns is neither
  stored nor tested, so \<open>r_XSysMon_CfgInitialize\<close> does not occur below. The status of
  \<^verbatim>\<open>XAxiDma_CfgInitialize\<close> is stored in \<^verbatim>\<open>status\<close> and tested.
\<close>

definition initialization :: "env \<Rightarrow> event list \<times> outcome" where
  "initialization env =
     (let t0 = [Init_platform, Print (''Entering the main'' @ [LF, CR]),
                XSysMon_LookupConfig (SYSMON_INSTANCE_ID env)]
      in case r_XSysMon_LookupConfig env (SYSMON_INSTANCE_ID env) of
           None \<Rightarrow> (t0, Exit (XST_FAILURE env))
         | Some sysmon_config \<Rightarrow>
             (let t1 = t0 @ [XSysMon_CfgInitialize (BaseAddress sysmon_config)]
                          @ sysmon_configuration
                          @ [XAxiDma_LookupConfig (AXI_DMA_INSTANCE_ID env)]
              in case r_XAxiDma_LookupConfig env (AXI_DMA_INSTANCE_ID env) of
                   None \<Rightarrow>
                     (t1 @ [Printf (no_config_msg (AXI_DMA_INSTANCE_ID env))],
                      Exit (XST_FAILURE env))
                 | Some dma_config \<Rightarrow>
                     (let status = r_XAxiDma_CfgInitialize env;
                          t2 = t1 @ [XAxiDma_CfgInitialize]
                      in if status \<noteq> XST_SUCCESS env
                         then (t2 @ [Printf (init_failed_msg status)], Exit (XST_FAILURE env))
                         else case reset_wait (r_XAxiDma_ResetIsDone env) 0 of
                                None \<Rightarrow> (t2 @ [XAxiDma_Reset], Hang)
                              | Some k \<Rightarrow>
                                  (t2 @ [XAxiDma_Reset]
                                      @ map (\<lambda>j. XAxiDma_ResetIsDone (r_XAxiDma_ResetIsDone env j))
                                          [0..<k]
                                      @ [XAxiDma_IntrDisable XAXIDMA_IRQ_ALL_MASK
                                           XAXIDMA_DEVICE_TO_DMA,
                                         XAxiDma_IntrDisable XAXIDMA_IRQ_ALL_MASK
                                           XAXIDMA_DMA_TO_DEVICE],
                                   Continue))))"

subsection \<open>\<^verbatim>\<open>main\<close>\<close>

definition main :: "env \<Rightarrow> nat \<Rightarrow> event list \<times> outcome" where
  "main env fuel =
     (let (t, out) = initialization env
      in if out = Continue
         then (let (t', out') = main_loop env fuel 0 in (t @ t', out'))
         else (t, out))"

subsection \<open>Projections of a trace\<close>

fun console :: "event list \<Rightarrow> string list" where
  "console [] = []"
| "console (Print s # t) = s # console t"
| "console (Printf s # t) = s # console t"
| "console (Xil_printf s # t) = s # console t"
| "console (e # t) = console t"

fun reads :: "event list \<Rightarrow> nat list" where
  "reads [] = []"
| "reads (Read_u16 a # t) = a # reads t"
| "reads (e # t) = reads t"

fun transfers :: "event list \<Rightarrow> event list" where
  "transfers [] = []"
| "transfers (XAxiDma_SimpleTransfer a l d # t) = XAxiDma_SimpleTransfer a l d # transfers t"
| "transfers (e # t) = transfers t"

fun is_sysmon_setting :: "event \<Rightarrow> bool" where
  "is_sysmon_setting (XSysMon_SetSequencerMode m) = True"
| "is_sysmon_setting (XSysMon_SetAlarmEnables a) = True"
| "is_sysmon_setting (XSysMon_SetSeqChEnables c) = True"
| "is_sysmon_setting (XSysMon_SetAdcClkDivisor d) = True"
| "is_sysmon_setting e = False"

text \<open>The events that only an acquisition cycle produces.\<close>

fun is_cycle_event :: "event \<Rightarrow> bool" where
  "is_cycle_event (XAxiDma_SimpleTransfer a l d) = True"
| "is_cycle_event (XAxiDma_Busy d b) = True"
| "is_cycle_event (Xil_DCacheFlushRange a l) = True"
| "is_cycle_event (Read_u16 a) = True"
| "is_cycle_event (Xil_printf s) = True"
| "is_cycle_event (Usleep u) = True"
| "is_cycle_event e = False"

subsection \<open>Notions used to state the properties\<close>

text \<open>The three decimal digits of a number below 1000.\<close>

definition digits3 :: "nat \<Rightarrow> string" where
  "digits3 n = [digit_char (n div 100), digit_char (n div 10 mod 10), digit_char (n mod 10)]"

text \<open>
  The raw code at index \<open>i\<close> of the buffer as the processor sees it in cycle \<open>n\<close>, and
  the lines of a complete batch: one reading for each of the first 100 codes, then the
  separator.
\<close>

definition raw_code :: "env \<Rightarrow> nat \<Rightarrow> nat \<Rightarrow> u16" where
  "raw_code env n i = load_u16 (big_endian env) (memory env n) (DMA_RX_BUFFER_ADDR + 2 * i)"

definition batch :: "env \<Rightarrow> nat \<Rightarrow> string list" where
  "batch env n = map (\<lambda>i. sample_line (raw_code env n i)) [0..<100] @ [separator]"

text \<open>
  A board for the examples: a little-endian processor, every driver call succeeds, the
  engine is idle at the first poll, and in every cycle the buffer starts with the codes
  0, 16384, 32768, 49152, 65535 and is zero after them.
\<close>

definition ramp_memory :: "nat \<Rightarrow> u8" where
  "ramp_memory a =
     (if a = DMA_RX_BUFFER_ADDR + 3 then 0x40
      else if a = DMA_RX_BUFFER_ADDR + 5 then 0x80
      else if a = DMA_RX_BUFFER_ADDR + 7 then 0xC0
      else if a = DMA_RX_BUFFER_ADDR + 8 then 0xFF
      else if a = DMA_RX_BUFFER_ADDR + 9 then 0xFF
      else 0)"

definition board :: env where
  "board =
     \<lparr>XST_SUCCESS = 0, XST_FAILURE = 1,
      XPAR_SYSMON_0_DEVICE_ID = 0, XPAR_AXIDMA_0_DEVICE_ID = 0,
      big_endian = False,
      r_XSysMon_LookupConfig = (\<lambda>dev. Some \<lparr>BaseAddress = 0x43C00000\<rparr>),
      r_XSysMon_CfgInitialize = 0,
      r_XAxiDma_LookupConfig = (\<lambda>dev. Some \<lparr>BaseAddr = 0x40400000\<rparr>),
      r_XAxiDma_CfgInitialize = 0,
      r_XAxiDma_ResetIsDone = (\<lambda>k. True),
      r_XAxiDma_SimpleTransfer = (\<lambda>n. 0),
      r_XAxiDma_Busy = (\<lambda>n k. False),
      memory = (\<lambda>n. ramp_memory)\<rparr>"

section \<open>Exactness of the single-precision computation\<close>

lemma ilog2_lower:
  assumes "0 < x"
  shows "2 powi (ilog2 x) \<le> x"
proof -
  obtain p q where pq: "quotient_of x = (p, q)" by force
  have q: "0 < q" using quotient_of_denom_pos[OF pq] .
  have x: "x = of_int p / of_int q" using quotient_of_div[OF pq] .
  have p: "0 < p" using assms q unfolding x by (simp add: zero_less_divide_iff)
  let ?d = "bitlen p - bitlen q"
  have low: "(2::rat) powi (?d - 1) \<le> x"
  proof -
    have bp: "1 \<le> bitlen p" using p bitlen_eq_zero_iff[of p] bitlen_nonneg[of p] by linarith
    have bq: "0 \<le> bitlen q" by (rule bitlen_nonneg)
    have "(2::int) ^ nat (bitlen p - 1) \<le> p" using bitlen_bounds[OF p] by simp
    then have "of_int ((2::int) ^ nat (bitlen p - 1)) \<le> (of_int p :: rat)"
      by (simp only: of_int_le_iff)
    then have P: "(2::rat) powi (bitlen p - 1) \<le> of_int p"
      using bp by (simp add: power_int_def)
    have "q < (2::int) ^ nat (bitlen q)" using bitlen_bounds[OF q] by simp
    then have "(of_int q :: rat) < of_int ((2::int) ^ nat (bitlen q))"
      by (simp only: of_int_less_iff)
    then have Q: "(of_int q :: rat) \<le> 2 powi (bitlen q)"
      using bq by (simp add: power_int_def)
    have de: "?d - 1 = (bitlen p - 1) - bitlen q" by simp
    have "(2::rat) powi (?d - 1) = 2 powi (bitlen p - 1) / 2 powi (bitlen q)"
      unfolding de by (rule power_int_diff) simp
    also have "\<dots> \<le> of_int p / 2 powi (bitlen q)"
      using P by (simp add: divide_right_mono)
    also have "\<dots> \<le> of_int p / of_int q"
      using Q p q by (simp add: frac_le)
    finally show ?thesis unfolding x .
  qed
  show ?thesis
    using low by (simp add: ilog2_def pq Let_def)
qed

lemma round_half_even_of_int: "round_half_even (of_int n) = n"
  by (simp add: round_half_even_def)

lemma f32_round_exact:
  assumes n: "\<bar>n\<bar> < 2 ^ 24" and j: "- 149 \<le> j"
  shows "f32_round (of_int n * 2 powi j) = of_int n * 2 powi j"
proof (cases "n = 0")
  case True
  then show ?thesis by (simp add: f32_round_def)
next
  case False
  let ?x = "of_int n * (2::rat) powi j"
  have ax: "\<bar>?x\<bar> = of_int \<bar>n\<bar> * 2 powi j"
    by (simp add: abs_mult)
  have pos: "0 < \<bar>?x\<bar>" using False by simp
  define e0 where "e0 = ilog2 \<bar>?x\<bar>"
  define e where "e = max e0 (- 126)"
  have "(2::rat) powi e0 \<le> \<bar>?x\<bar>"
    unfolding e0_def by (rule ilog2_lower[OF pos])
  also have "\<bar>?x\<bar> < 2 ^ 24 * 2 powi j"
  proof -
    have "(of_int \<bar>n\<bar> :: rat) < of_int (2 ^ 24)" using n by (simp only: of_int_less_iff)
    then show ?thesis unfolding ax by (simp add: mult_strict_right_mono)
  qed
  also have "\<dots> = 2 powi (24 + j)"
    by (simp add: power_int_add)
  finally have lt: "(2::rat) powi e0 < 2 powi (24 + j)" .
  have "e0 < 24 + j"
  proof (rule ccontr)
    assume "\<not> e0 < 24 + j"
    then have "24 + j \<le> e0" by simp
    then have "(2::rat) powi (24 + j) \<le> 2 powi e0"
      by (rule power_int_increasing) simp
    with lt show False by simp
  qed
  then have e: "0 \<le> j - e + 23" using j unfolding e_def by simp
  define k where "k = nat (j - e + 23)"
  have "\<bar>?x\<bar> / 2 powi (e - 23) = of_int \<bar>n\<bar> * 2 powi (j - (e - 23))"
    unfolding ax by (simp add: power_int_diff)
  also have "j - (e - 23) = int k" using e unfolding k_def by simp
  also have "of_int \<bar>n\<bar> * (2::rat) powi (int k) = of_int (\<bar>n\<bar> * 2 ^ k)"
    by simp
  finally have q: "\<bar>?x\<bar> / 2 powi (e - 23) = of_int (\<bar>n\<bar> * 2 ^ k)" .
  have "f32_round ?x = sgn ?x * of_int (round_half_even (\<bar>?x\<bar> / 2 powi (e - 23))) * 2 powi (e - 23)"
    using False by (simp add: f32_round_def Let_def e_def e0_def)
  also have "\<dots> = sgn ?x * (\<bar>?x\<bar> / 2 powi (e - 23)) * 2 powi (e - 23)"
    unfolding q round_half_even_of_int ..
  also have "\<dots> = sgn ?x * \<bar>?x\<bar>"
    by simp
  also have "\<dots> = ?x"
    by (simp only: sgn_mult_abs)
  finally show ?thesis .
qed

lemma f32_round_of_int: "\<bar>n\<bar> < 2 ^ 24 \<Longrightarrow> f32_round (of_int n) = of_int n"
  using f32_round_exact[of n 0] by simp

lemma uint16_bounds: "0 \<le> uint (c::u16)" "uint (c::u16) < 65536"
  using uint_lt2p[of c] by simp_all

lemma Convert_exact:
  assumes "0 \<le> n" "n < 65536"
  shows "ConvertRawADCToVoltage n = of_int n / 65536"
proof -
  have a: "\<bar>n\<bar> < 2 ^ 24" using assms by simp
  have "of_int n / (65536::rat) = of_int n * 2 powi (- 16)"
    by (simp add: power_int_minus_divide)
  moreover have "f32_round (of_int n * 2 powi (- 16)) = of_int n * 2 powi (- 16)"
    by (rule f32_round_exact[OF a]) simp
  ultimately show ?thesis
    by (simp add: ConvertRawADCToVoltage_def f32_div_def f32_mul_def f32_of_int_def
        f32_round_of_int[OF a])
qed

lemma scaled_exact:
  assumes "0 \<le> n" "n < 65536"
  shows "f32_mul (f32_sub (of_int n / 65536) (f32_of_int 0)) (f32_of_int 1000)
           = of_int (n * 1000) / of_int 65536"
proof -
  have a: "\<bar>n\<bar> < 2 ^ 24" and b: "\<bar>n * 125\<bar> < 2 ^ 24" using assms by simp_all
  have v: "f32_round (of_int n / 65536) = of_int n / 65536"
    using f32_round_exact[OF a, of "- 16"] by (simp add: power_int_minus_divide)
  have z: "f32_of_int 0 = 0"
    by (simp add: f32_of_int_def f32_round_def)
  have k: "f32_of_int 1000 = 1000"
    using f32_round_of_int[of 1000] by (simp add: f32_of_int_def)
  have eq: "of_int n / 65536 * (1000::rat) = of_int (n * 125) * 2 powi (- 13)"
    by (simp add: power_int_minus_divide)
  have r: "f32_round (of_int n / 65536 * 1000) = of_int n / 65536 * 1000"
    unfolding eq by (rule f32_round_exact[OF b]) simp
  have s: "f32_sub (of_int n / 65536) 0 = of_int n / 65536"
    unfolding f32_sub_def diff_0_right by (rule v)
  have m: "f32_mul (of_int n / 65536) 1000 = of_int n / 65536 * 1000"
    unfolding f32_mul_def by (rule r)
  show ?thesis
    unfolding z k s m by simp
qed

lemma voltage_exact: "voltage c = of_int (uint c) / 65536"
  unfolding voltage_def by (rule Convert_exact[OF uint16_bounds])

lemma voltage_range: "0 \<le> voltage c" "voltage c < 1"
proof -
  have "(0::rat) \<le> of_int (uint c)" "(of_int (uint c) :: rat) < of_int 65536"
    using uint16_bounds[of c] by (simp_all only: of_int_0_le_iff of_int_less_iff)
  then show "0 \<le> voltage c" "voltage c < 1"
    unfolding voltage_exact by simp_all
qed

lemma integer_part_zero: "integer_part c = 0"
  using voltage_range[of c] by (simp add: integer_part_def f32_to_int_def floor_unique)

lemma fractional_part_exact: "fractional_part c = (uint c * 1000) div 65536"
proof -
  have s: "f32_mul (f32_sub (voltage c) (f32_of_int 0)) (f32_of_int 1000)
             = of_int (uint c * 1000) / of_int 65536"
    unfolding voltage_exact by (rule scaled_exact[OF uint16_bounds])
  have "(0::rat) \<le> of_int (uint c * 1000) / of_int 65536"
    using uint16_bounds(1)[of c] by (simp only: of_int_0_le_iff zero_le_divide_iff) simp
  then have "fractional_part c = \<lfloor>of_int (uint c * 1000) / (of_int 65536 :: rat)\<rfloor>"
    unfolding fractional_part_def integer_part_zero s f32_to_int_def by (simp only: if_True)
  also have "\<dots> = (uint c * 1000) div 65536"
    by (rule floor_divide_of_int_eq)
  finally show ?thesis .
qed

lemma fractional_part_range: "0 \<le> fractional_part c" "fractional_part c \<le> 999"
  unfolding fractional_part_exact using uint16_bounds[of c] by arith+

section \<open>The polling loops and the structure of a cycle\<close>

lemma busy_wait_SomeD:
  assumes "busy_wait busy k = Some n"
  shows "k < n \<and> \<not> busy (n - 1) \<and> (\<forall>j. k \<le> j \<and> j < n - 1 \<longrightarrow> busy j)"
proof (rule busy_wait.raw_induct[where P = "\<lambda>b k n. k < n \<and> \<not> b (n - 1) \<and> (\<forall>j. k \<le> j \<and> j < n - 1 \<longrightarrow> b j)",
      OF _ assms])
  fix bw :: "(nat \<Rightarrow> bool) \<Rightarrow> nat \<Rightarrow> nat option" and b k n
  assume IH: "\<And>b' k' y. bw b' k' = Some y \<Longrightarrow>
                k' < y \<and> \<not> b' (y - 1) \<and> (\<forall>j. k' \<le> j \<and> j < y - 1 \<longrightarrow> b' j)"
    and eq: "(if b k then bw b (Suc k) else Some (Suc k)) = Some n"
  show "k < n \<and> \<not> b (n - 1) \<and> (\<forall>j. k \<le> j \<and> j < n - 1 \<longrightarrow> b j)"
  proof (cases "b k")
    case True
    with eq have "bw b (Suc k) = Some n" by simp
    from IH[OF this] have a: "Suc k < n" and l: "\<not> b (n - 1)"
      and c: "\<forall>j. Suc k \<le> j \<and> j < n - 1 \<longrightarrow> b j" by auto
    have "b j" if "k \<le> j" "j < n - 1" for j
    proof (cases "j = k")
      case True
      then show ?thesis using \<open>b k\<close> by simp
    next
      case False
      with that have "Suc k \<le> j" by simp
      with c that show ?thesis by simp
    qed
    then show ?thesis using a l by auto
  next
    case False
    with eq show ?thesis by auto
  qed
qed

lemma busy_wait_found:
  "\<not> busy (k + d) \<Longrightarrow> (\<forall>j<d. busy (k + j)) \<Longrightarrow> busy_wait busy k = Some (Suc (k + d))"
proof (induction d arbitrary: k)
  case 0
  then show ?case by (subst busy_wait.simps) simp
next
  case (Suc d)
  have b: "busy k" using Suc.prems(2) by (metis add.right_neutral zero_less_Suc)
  have "busy_wait busy (Suc k) = Some (Suc (Suc k + d))"
  proof (rule Suc.IH)
    show "\<not> busy (Suc k + d)" using Suc.prems(1) by simp
    show "\<forall>j<d. busy (Suc k + j)"
    proof (intro allI impI)
      fix j assume "j < d"
      then have "busy (k + Suc j)" using Suc.prems(2) by (simp del: add_Suc_right)
      then show "busy (Suc k + j)" by simp
    qed
  qed
  then show ?case using b by (subst busy_wait.simps) simp
qed

lemma busy_wait_terminates:
  assumes "\<not> busy j"
  shows "\<exists>n. busy_wait busy 0 = Some n"
proof -
  define d where "d = (LEAST i. \<not> busy i)"
  have "\<not> busy d" unfolding d_def using assms by (rule LeastI)
  moreover have "\<forall>i<d. busy i" unfolding d_def using not_less_Least by blast
  ultimately have "busy_wait busy 0 = Some (Suc (0 + d))"
    using busy_wait_found[of busy 0 d] by simp
  then show ?thesis by blast
qed

lemma busy_wait_always:
  assumes "\<forall>j. busy j"
  shows "busy_wait busy k = None"
proof (rule ccontr)
  assume "busy_wait busy k \<noteq> None"
  then obtain n where "busy_wait busy k = Some n" by auto
  from busy_wait_SomeD[OF this] assms show False by simp
qed

lemma reset_wait_SomeD:
  assumes "reset_wait dn k = Some n"
  shows "k < n \<and> dn (n - 1) \<and> (\<forall>j. k \<le> j \<and> j < n - 1 \<longrightarrow> \<not> dn j)"
proof (rule reset_wait.raw_induct[where P = "\<lambda>b k n. k < n \<and> b (n - 1) \<and> (\<forall>j. k \<le> j \<and> j < n - 1 \<longrightarrow> \<not> b j)",
      OF _ assms])
  fix rw :: "(nat \<Rightarrow> bool) \<Rightarrow> nat \<Rightarrow> nat option" and b k n
  assume IH: "\<And>b' k' y. rw b' k' = Some y \<Longrightarrow>
                k' < y \<and> b' (y - 1) \<and> (\<forall>j. k' \<le> j \<and> j < y - 1 \<longrightarrow> \<not> b' j)"
    and eq: "(if \<not> b k then rw b (Suc k) else Some (Suc k)) = Some n"
  show "k < n \<and> b (n - 1) \<and> (\<forall>j. k \<le> j \<and> j < n - 1 \<longrightarrow> \<not> b j)"
  proof (cases "b k")
    case False
    with eq have "rw b (Suc k) = Some n" by simp
    from IH[OF this] have a: "Suc k < n" and l: "b (n - 1)"
      and c: "\<forall>j. Suc k \<le> j \<and> j < n - 1 \<longrightarrow> \<not> b j" by auto
    have "\<not> b j" if "k \<le> j" "j < n - 1" for j
    proof (cases "j = k")
      case True
      then show ?thesis using \<open>\<not> b k\<close> by simp
    next
      case False
      with that have "Suc k \<le> j" by simp
      with c that show ?thesis by simp
    qed
    then show ?thesis using a l by auto
  next
    case True
    with eq show ?thesis by auto
  qed
qed

lemma reset_wait_now: "dn 0 \<Longrightarrow> reset_wait dn 0 = Some 1"
  by (subst reset_wait.simps) simp

lemma busy_wait_now: "\<not> busy 0 \<Longrightarrow> busy_wait busy 0 = Some 1"
  by (subst busy_wait.simps) simp

lemma reads_append: "reads (a @ b) = reads a @ reads b"
  by (induction a rule: reads.induct) simp_all

lemma console_append: "console (a @ b) = console a @ console b"
  by (induction a rule: console.induct) simp_all

lemma transfers_append: "transfers (a @ b) = transfers a @ transfers b"
  by (induction a rule: transfers.induct) simp_all

lemma sample_loop_unfold:
  "sample_loop be mem i p =
     concat (map (\<lambda>j. [Read_u16 (p + 2 * j), Xil_printf (sample_line (load_u16 be mem (p + 2 * j)))])
                 [0..<nat (100 - i)])"
proof (induction be mem i p rule: sample_loop.induct)
  case (1 be mem i p)
  show ?case
  proof (cases "i < 100")
    case True
    then have n: "nat (100 - i) = Suc (nat (100 - (i + 1)))" by simp
    have u: "[0..<Suc m] = 0 # map Suc [0..<m]" for m
      by (simp add: upt_conv_Cons map_Suc_upt del: upt_Suc)
    have step: "sample_loop be mem i p =
        [Read_u16 p, Xil_printf (sample_line (load_u16 be mem p))]
          @ sample_loop be mem (i + 1) (p + 2)"
      by (subst sample_loop.simps) (simp only: True if_True)
    show ?thesis
      unfolding step 1[OF True] n u by (simp add: comp_def)
  next
    case False
    then show ?thesis by (subst sample_loop.simps) simp
  qed
qed

lemma reads_sample_loop:
  "reads (sample_loop be mem 0 p) = map (\<lambda>j. p + 2 * j) [0..<100]"
proof -
  have "reads (concat (map (\<lambda>j. [Read_u16 (p + 2 * j), Xil_printf (f j)]) xs))
          = map (\<lambda>j. p + 2 * j) xs" for xs :: "nat list" and f
    by (induction xs) simp_all
  then show ?thesis unfolding sample_loop_unfold by simp
qed

lemma console_sample_loop:
  "console (sample_loop be mem 0 p)
     = map (\<lambda>j. sample_line (load_u16 be mem (p + 2 * j))) [0..<100]"
proof -
  have "console (concat (map (\<lambda>j. [Read_u16 (p + 2 * j), Xil_printf (f j)]) xs))
          = map f xs" for xs :: "nat list" and f
    by (induction xs) simp_all
  then show ?thesis unfolding sample_loop_unfold by simp
qed

lemma transfers_sample_loop: "transfers (sample_loop be mem i p) = []"
proof -
  have "transfers (concat (map (\<lambda>j. [Read_u16 (p + 2 * j), Xil_printf (f j)]) xs)) = []"
    for xs :: "nat list" and f
    by (induction xs) simp_all
  then show ?thesis unfolding sample_loop_unfold by simp
qed

lemma sample_loop_events:
  "e \<in> set (sample_loop be mem i p) \<Longrightarrow> (\<exists>a. e = Read_u16 a) \<or> (\<exists>s. e = Xil_printf s)"
  unfolding sample_loop_unfold by auto

lemma cycle_rejected:
  "r_XAxiDma_SimpleTransfer env n \<noteq> XST_SUCCESS env \<Longrightarrow>
   cycle env n =
     ([XAxiDma_SimpleTransfer DMA_RX_BUFFER_ADDR MAX_PACKET_LENGTH XAXIDMA_DEVICE_TO_DMA,
       Printf (transfer_failed_msg (r_XAxiDma_SimpleTransfer env n))], Exit (XST_FAILURE env))"
  by (simp add: cycle_def)

lemma cycle_hang:
  "r_XAxiDma_SimpleTransfer env n = XST_SUCCESS env \<Longrightarrow>
   busy_wait (r_XAxiDma_Busy env n) 0 = None \<Longrightarrow>
   cycle env n =
     ([XAxiDma_SimpleTransfer DMA_RX_BUFFER_ADDR MAX_PACKET_LENGTH XAXIDMA_DEVICE_TO_DMA], Hang)"
  by (simp add: cycle_def)

lemma cycle_completes:
  "r_XAxiDma_SimpleTransfer env n = XST_SUCCESS env \<Longrightarrow>
   busy_wait (r_XAxiDma_Busy env n) 0 = Some k \<Longrightarrow>
   cycle env n =
     ([XAxiDma_SimpleTransfer DMA_RX_BUFFER_ADDR MAX_PACKET_LENGTH XAXIDMA_DEVICE_TO_DMA]
        @ map (\<lambda>j. XAxiDma_Busy XAXIDMA_DEVICE_TO_DMA (r_XAxiDma_Busy env n j)) [0..<k]
        @ [Xil_DCacheFlushRange DMA_RX_BUFFER_ADDR MAX_PACKET_LENGTH]
        @ sample_loop (big_endian env) (memory env n) 0 DMA_RX_BUFFER_ADDR
        @ [Xil_printf separator, Usleep 500000], Continue)"
  by (simp add: cycle_def)

lemma cycle_Continue_iff:
  "snd (cycle env n) = Continue \<longleftrightarrow>
     r_XAxiDma_SimpleTransfer env n = XST_SUCCESS env \<and>
     busy_wait (r_XAxiDma_Busy env n) 0 \<noteq> None"
  by (auto simp: cycle_def Let_def split: option.splits)

section \<open>Formatting of a reading\<close>

lemma digit_char_0: "digit_char 0 = CHR ''0''"
  by code_simp

lemma dec_digits_small: "n < 10 \<Longrightarrow> dec_digits n = [digit_char n]"
  by (subst dec_digits.simps) simp

lemma dec_digits_step: "10 \<le> n \<Longrightarrow> dec_digits n = dec_digits (n div 10) @ [digit_char (n mod 10)]"
  by (subst dec_digits.simps) simp

lemma pad3:
  assumes "n < 1000"
  shows "replicate (3 - length (dec_digits n)) CHR ''0'' @ dec_digits n = digits3 n"
proof -
  consider "n < 10" | "10 \<le> n" "n < 100" | "100 \<le> n"
    by linarith
  then show ?thesis
  proof cases
    case 1
    then show ?thesis
      by (simp add: dec_digits_small digits3_def digit_char_0 numeral_3_eq_3)
  next
    case 2
    then have "n div 10 < 10" "n div 100 = 0" by simp_all
    with 2 show ?thesis
      by (simp add: dec_digits_step dec_digits_small digits3_def digit_char_0)
  next
    case 3
    then have a: "10 \<le> n" "10 \<le> n div 10" by simp_all
    have b: "n div 10 div 10 < 10" using assms by simp
    have c: "n div 10 div 10 = n div 100" by (simp add: div_mult2_eq[symmetric])
    show ?thesis
      using b unfolding dec_digits_step[OF a(1)] dec_digits_step[OF a(2)] c
      by (simp add: dec_digits_small digits3_def)
  qed
qed

lemma fmt_03d_digits: "0 \<le> fp \<Longrightarrow> fp \<le> 999 \<Longrightarrow> fmt_03d fp = digits3 (nat fp)"
  using pad3[of "nat fp"] by (simp add: fmt_03d_def)

lemma fmt_d_0: "fmt_d 0 = ''0''"
  by (simp add: fmt_d_def dec_digits_small digit_char_0)

lemma sample_line_form:
  "sample_line c = ''0.'' @ digits3 (nat (fractional_part c)) @ '' volts'' @ [CR, LF]"
  using fractional_part_range[of c]
  by (simp add: sample_line_def volts_line_def integer_part_zero fmt_d_0 fmt_03d_digits)

lemma fractional_part_floor:
  "fractional_part c = \<lfloor>(voltage c - of_int \<lfloor>voltage c\<rfloor>) * 1000\<rfloor>"
proof -
  have z: "\<lfloor>voltage c\<rfloor> = 0"
    using voltage_range[of c] by (simp add: floor_unique)
  have "voltage c * 1000 = of_int (uint c * 1000) / of_int 65536"
    unfolding voltage_exact by simp
  then have "\<lfloor>voltage c * 1000\<rfloor> = (uint c * 1000) div 65536"
    by (simp only: floor_divide_of_int_eq)
  then show ?thesis
    unfolding z fractional_part_exact by simp
qed

text \<open>
  C1. For every raw 16-bit code \<open>c\<close> the computed voltage is \<open>c / 65536\<close>, the
  fractional part is \<open>floor ((voltage - floor voltage) * 1000)\<close>, truncated and not
  rounded, and its three digits are the ones printed; the code 65530 prints as 0.999.
\<close>

theorem C1_voltage_and_fraction:
  "voltage c = of_int (uint c) / 65536
   \<and> fractional_part c = \<lfloor>(voltage c - of_int \<lfloor>voltage c\<rfloor>) * 1000\<rfloor>
   \<and> sample_line c
       = fmt_d (integer_part c) @ ''.''
           @ digits3 (nat \<lfloor>(voltage c - of_int \<lfloor>voltage c\<rfloor>) * 1000\<rfloor>) @ '' volts'' @ [CR, LF]
   \<and> sample_line 65530 = ''0.999 volts'' @ [CR, LF]"
proof -
  have a: "voltage c = of_int (uint c) / 65536"
    by (rule voltage_exact)
  have b: "fractional_part c = \<lfloor>(voltage c - of_int \<lfloor>voltage c\<rfloor>) * 1000\<rfloor>"
    by (rule fractional_part_floor)
  have c: "sample_line c
       = fmt_d (integer_part c) @ ''.''
           @ digits3 (nat \<lfloor>(voltage c - of_int \<lfloor>voltage c\<rfloor>) * 1000\<rfloor>) @ '' volts'' @ [CR, LF]"
    unfolding b[symmetric] integer_part_zero fmt_d_0 sample_line_form by simp
  have d: "sample_line 65530 = ''0.999 volts'' @ [CR, LF]"
    by code_simp
  from a b c d show ?thesis by blast
qed

text \<open>
  C9. For every 16-bit raw code the printed integer part is 0 and the printed fractional
  part lies between 0 and 999, so that every reading has the form \<open>0.NNN volts\<close> and
  1.000 is never printed.
\<close>

theorem C9_reading_below_one:
  "integer_part c = 0
   \<and> 0 \<le> fractional_part c \<and> fractional_part c \<le> 999
   \<and> sample_line c = ''0.'' @ digits3 (nat (fractional_part c)) @ '' volts'' @ [CR, LF]
   \<and> sample_line c \<noteq> ''1.000 volts'' @ [CR, LF]"
proof -
  have "sample_line c \<noteq> ''1.000 volts'' @ [CR, LF]"
    unfolding sample_line_form by simp
  then show ?thesis
    using integer_part_zero[of c] fractional_part_range[of c] sample_line_form[of c] by blast
qed

lemma first_five:
  "sample_line 0 = ''0.000 volts'' @ [CR, LF]"
  "sample_line 16384 = ''0.250 volts'' @ [CR, LF]"
  "sample_line 32768 = ''0.500 volts'' @ [CR, LF]"
  "sample_line 49152 = ''0.750 volts'' @ [CR, LF]"
  "sample_line 65535 = ''0.999 volts'' @ [CR, LF]"
  by code_simp+

section \<open>Properties of one acquisition cycle\<close>

lemma console_polls:
  "console (map (\<lambda>j. XAxiDma_Busy d (f j)) xs) = []"
  by (induction xs) simp_all

lemma reads_polls:
  "reads (map (\<lambda>j. XAxiDma_Busy d (f j)) xs) = []"
  by (induction xs) simp_all

lemma transfers_polls:
  "transfers (map (\<lambda>j. XAxiDma_Busy d (f j)) xs) = []"
  by (induction xs) simp_all

lemma console_cycle_completes:
  assumes "snd (cycle env n) = Continue"
  shows "console (fst (cycle env n)) = batch env n"
proof -
  from assms obtain k where
    "r_XAxiDma_SimpleTransfer env n = XST_SUCCESS env" "busy_wait (r_XAxiDma_Busy env n) 0 = Some k"
    unfolding cycle_Continue_iff by blast
  then show ?thesis
    by (simp add: cycle_completes console_append console_polls console_sample_loop
        batch_def raw_code_def)
qed

lemma reads_cycle:
  "reads (fst (cycle env n))
     = (if snd (cycle env n) = Continue
        then map (\<lambda>i. DMA_RX_BUFFER_ADDR + 2 * i) [0..<100] else [])"
  by (simp add: cycle_def Let_def reads_append reads_polls reads_sample_loop
      split: option.splits)

lemma transfers_cycle:
  "transfers (fst (cycle env n))
     = [XAxiDma_SimpleTransfer DMA_RX_BUFFER_ADDR MAX_PACKET_LENGTH XAXIDMA_DEVICE_TO_DMA]"
  by (simp add: cycle_def Let_def transfers_append transfers_polls transfers_sample_loop
      split: option.splits)

lemma sample_loop_cong:
  assumes "\<forall>a. p \<le> a \<and> a < p + 200 \<longrightarrow> mem' a = mem a"
  shows "sample_loop be mem' 0 p = sample_loop be mem 0 p"
proof -
  have "load_u16 be mem' (p + 2 * j) = load_u16 be mem (p + 2 * j)" if "j < 100" for j
    using assms that by (simp add: load_u16_def)
  then show ?thesis
    unfolding sample_loop_unfold by (intro arg_cong[where f = concat] map_cong) simp_all
qed

lemma cycle_memory_cong:
  assumes "\<forall>a. DMA_RX_BUFFER_ADDR \<le> a \<and> a < DMA_RX_BUFFER_ADDR + 200 \<longrightarrow> mem' a = memory env n a"
  shows "cycle (env\<lparr>memory := (memory env)(n := mem')\<rparr>) n = cycle env n"
  using sample_loop_cong[OF assms, of "big_endian env"]
  by (simp add: cycle_def Let_def split: option.splits)

lemma word_cat_bytes:
  "(word_cat (hi::u8) (lo::u8) :: u16) = word_of_int (256 * uint hi + uint lo)"
  by (simp add: word_cat_eq push_bit_eq_mult mult.commute)

lemma load_u16_bytes:
  "load_u16 be mem a
     = word_of_int (if be then 256 * uint (mem a) + uint (mem (a + 1))
                    else uint (mem a) + 256 * uint (mem (a + 1)))"
  by (simp add: load_u16_def word_cat_bytes add.commute)

lemma cycle_reads_nothing_rejected:
  "r_XAxiDma_SimpleTransfer env n \<noteq> XST_SUCCESS env \<Longrightarrow> reads (fst (cycle env n)) = []"
  by (simp add: cycle_rejected)

lemma cycle_reads_nothing_busy:
  "r_XAxiDma_SimpleTransfer env n = XST_SUCCESS env \<Longrightarrow> \<forall>j. r_XAxiDma_Busy env n j \<Longrightarrow>
   reads (fst (cycle env n)) = []"
  by (simp add: cycle_hang busy_wait_always)

text \<open>
  C3. Every acquisition cycle requests one transfer of exactly 512 bytes into the buffer.
  When the transfer is accepted and the engine goes idle, the cycle reads exactly 100
  two-byte samples at ascending addresses from the start of the buffer, and the reading
  printed for sample \<open>i\<close> is the one of the code formed by the bytes \<open>2 i\<close> and
  \<open>2 i + 1\<close> of the buffer, in the processor's byte order. A cycle whose transfer is
  rejected, or whose engine stays busy, reads nothing. No byte outside the first 200 has
  any influence on the cycle.
\<close>

theorem C3_partial_consumption:
  "transfers (fst (cycle env n))
     = [XAxiDma_SimpleTransfer DMA_RX_BUFFER_ADDR 512 XAXIDMA_DEVICE_TO_DMA]
   \<and> (r_XAxiDma_SimpleTransfer env n = XST_SUCCESS env \<and> (\<exists>j. \<not> r_XAxiDma_Busy env n j) \<longrightarrow>
        snd (cycle env n) = Continue
        \<and> (\<exists>k. fst (cycle env n)
               = [XAxiDma_SimpleTransfer DMA_RX_BUFFER_ADDR 512 XAXIDMA_DEVICE_TO_DMA]
                   @ map (\<lambda>j. XAxiDma_Busy XAXIDMA_DEVICE_TO_DMA (r_XAxiDma_Busy env n j)) [0..<k]
                   @ [Xil_DCacheFlushRange DMA_RX_BUFFER_ADDR 512]
                   @ concat (map (\<lambda>i.
                        [Read_u16 (DMA_RX_BUFFER_ADDR + 2 * i),
                         Xil_printf (sample_line (word_of_int
                           (if big_endian env
                            then 256 * uint (memory env n (DMA_RX_BUFFER_ADDR + 2 * i))
                                   + uint (memory env n (DMA_RX_BUFFER_ADDR + 2 * i + 1))
                            else uint (memory env n (DMA_RX_BUFFER_ADDR + 2 * i))
                                   + 256 * uint (memory env n (DMA_RX_BUFFER_ADDR + 2 * i + 1)))))])
                      [0..<100])
                   @ [Xil_printf separator, Usleep 500000])
        \<and> reads (fst (cycle env n)) = map (\<lambda>i. DMA_RX_BUFFER_ADDR + 2 * i) [0..<100]
        \<and> console (fst (cycle env n))
            = map (\<lambda>i. sample_line (word_of_int
                     (if big_endian env
                      then 256 * uint (memory env n (DMA_RX_BUFFER_ADDR + 2 * i))
                             + uint (memory env n (DMA_RX_BUFFER_ADDR + 2 * i + 1))
                      else uint (memory env n (DMA_RX_BUFFER_ADDR + 2 * i))
                             + 256 * uint (memory env n (DMA_RX_BUFFER_ADDR + 2 * i + 1)))))
                [0..<100] @ [separator])
   \<and> (r_XAxiDma_SimpleTransfer env n \<noteq> XST_SUCCESS env \<longrightarrow> reads (fst (cycle env n)) = [])
   \<and> (r_XAxiDma_SimpleTransfer env n = XST_SUCCESS env \<and> (\<forall>j. r_XAxiDma_Busy env n j) \<longrightarrow>
        reads (fst (cycle env n)) = [])
   \<and> (\<forall>mem'. (\<forall>a. DMA_RX_BUFFER_ADDR \<le> a \<and> a < DMA_RX_BUFFER_ADDR + 200
                    \<longrightarrow> mem' a = memory env n a)
         \<longrightarrow> cycle (env\<lparr>memory := (memory env)(n := mem')\<rparr>) n = cycle env n)"
proof -
  let ?B = DMA_RX_BUFFER_ADDR
  let ?v = "\<lambda>i. (word_of_int
                     (if big_endian env
                      then 256 * uint (memory env n (?B + 2 * i)) + uint (memory env n (?B + 2 * i + 1))
                      else uint (memory env n (?B + 2 * i))
                             + 256 * uint (memory env n (?B + 2 * i + 1))) :: u16)"
  have a: "transfers (fst (cycle env n)) = [XAxiDma_SimpleTransfer ?B 512 XAXIDMA_DEVICE_TO_DMA]"
    using transfers_cycle[of env n] by (simp add: MAX_PACKET_LENGTH_def)
  have b: "snd (cycle env n) = Continue
        \<and> (\<exists>k. fst (cycle env n)
               = [XAxiDma_SimpleTransfer ?B 512 XAXIDMA_DEVICE_TO_DMA]
                   @ map (\<lambda>j. XAxiDma_Busy XAXIDMA_DEVICE_TO_DMA (r_XAxiDma_Busy env n j)) [0..<k]
                   @ [Xil_DCacheFlushRange ?B 512]
                   @ concat (map (\<lambda>i. [Read_u16 (?B + 2 * i), Xil_printf (sample_line (?v i))])
                      [0..<100])
                   @ [Xil_printf separator, Usleep 500000])
        \<and> reads (fst (cycle env n)) = map (\<lambda>i. ?B + 2 * i) [0..<100]
        \<and> console (fst (cycle env n)) = map (\<lambda>i. sample_line (?v i)) [0..<100] @ [separator]"
    if ok: "r_XAxiDma_SimpleTransfer env n = XST_SUCCESS env" and idle: "\<exists>j. \<not> r_XAxiDma_Busy env n j"
  proof -
    from idle obtain j where "\<not> r_XAxiDma_Busy env n j" ..
    from busy_wait_terminates[of "r_XAxiDma_Busy env n" j, OF this]
    obtain k where k: "busy_wait (r_XAxiDma_Busy env n) 0 = Some k" ..
    have c: "snd (cycle env n) = Continue"
      unfolding cycle_Continue_iff using ok k by simp
    have s: "sample_loop (big_endian env) (memory env n) 0 ?B
               = concat (map (\<lambda>i. [Read_u16 (?B + 2 * i), Xil_printf (sample_line (?v i))])
                   [0..<100])"
      unfolding sample_loop_unfold load_u16_bytes by (simp add: add.assoc)
    have t: "fst (cycle env n)
               = [XAxiDma_SimpleTransfer ?B 512 XAXIDMA_DEVICE_TO_DMA]
                   @ map (\<lambda>j. XAxiDma_Busy XAXIDMA_DEVICE_TO_DMA (r_XAxiDma_Busy env n j)) [0..<k]
                   @ [Xil_DCacheFlushRange ?B 512]
                   @ concat (map (\<lambda>i. [Read_u16 (?B + 2 * i), Xil_printf (sample_line (?v i))])
                      [0..<100])
                   @ [Xil_printf separator, Usleep 500000]"
      unfolding cycle_completes[OF ok k] s by (simp add: MAX_PACKET_LENGTH_def)
    have r: "reads (fst (cycle env n)) = map (\<lambda>i. ?B + 2 * i) [0..<100]"
      using reads_cycle[of env n] c by simp
    have "console (fst (cycle env n))
            = map (\<lambda>i. sample_line (load_u16 (big_endian env) (memory env n) (?B + 2 * i)))
                [0..<100] @ [separator]"
      using console_cycle_completes[OF c] by (simp add: batch_def raw_code_def)
    then have o: "console (fst (cycle env n)) = map (\<lambda>i. sample_line (?v i)) [0..<100] @ [separator]"
      unfolding load_u16_bytes by (simp add: add.assoc)
    from c t r o show ?thesis by blast
  qed
  show ?thesis
    using a b cycle_reads_nothing_rejected[of env n] cycle_reads_nothing_busy[of env n]
      cycle_memory_cong[of mem' env n for mem']
    by blast
qed

lemma map_const_upt: "(\<forall>j<m. f j = c) \<Longrightarrow> map f [0..<m] = replicate m c"
  by (simp add: list_eq_iff_nth_eq)

text \<open>
  C5. In a cycle the transfer is submitted first, then the engine is polled, then the
  cache range is flushed, and only then is the buffer read as samples. The wait returns
  at the first poll that reports idle: every poll before it reported busy, and while the
  engine reports busy at every poll the wait never returns.
\<close>

theorem C5_cycle_order:
  "(snd (cycle env n) = Continue \<longrightarrow>
      (\<exists>k. fst (cycle env n)
              = [XAxiDma_SimpleTransfer DMA_RX_BUFFER_ADDR MAX_PACKET_LENGTH XAXIDMA_DEVICE_TO_DMA]
                  @ replicate k (XAxiDma_Busy XAXIDMA_DEVICE_TO_DMA True)
                  @ [XAxiDma_Busy XAXIDMA_DEVICE_TO_DMA False,
                     Xil_DCacheFlushRange DMA_RX_BUFFER_ADDR MAX_PACKET_LENGTH]
                  @ sample_loop (big_endian env) (memory env n) 0 DMA_RX_BUFFER_ADDR
                  @ [Xil_printf separator, Usleep 500000]
            \<and> (\<forall>j<k. r_XAxiDma_Busy env n j) \<and> \<not> r_XAxiDma_Busy env n k
            \<and> reads (sample_loop (big_endian env) (memory env n) 0 DMA_RX_BUFFER_ADDR)
                = reads (fst (cycle env n))))
   \<and> (r_XAxiDma_SimpleTransfer env n = XST_SUCCESS env \<and> (\<forall>j. r_XAxiDma_Busy env n j) \<longrightarrow>
        cycle env n =
          ([XAxiDma_SimpleTransfer DMA_RX_BUFFER_ADDR MAX_PACKET_LENGTH XAXIDMA_DEVICE_TO_DMA],
           Hang))"
proof (intro conjI impI)
  assume "snd (cycle env n) = Continue"
  then obtain m where ok: "r_XAxiDma_SimpleTransfer env n = XST_SUCCESS env"
    and m: "busy_wait (r_XAxiDma_Busy env n) 0 = Some m"
    unfolding cycle_Continue_iff by blast
  from busy_wait_SomeD[OF m] have pos: "0 < m" and last: "\<not> r_XAxiDma_Busy env n (m - 1)"
    and before: "\<forall>j<m - 1. r_XAxiDma_Busy env n j" by simp_all
  define k where "k = m - 1"
  have mk: "m = Suc k" using pos unfolding k_def by simp
  have polls: "map (\<lambda>j. XAxiDma_Busy XAXIDMA_DEVICE_TO_DMA (r_XAxiDma_Busy env n j)) [0..<m]
      = replicate k (XAxiDma_Busy XAXIDMA_DEVICE_TO_DMA True) @ [XAxiDma_Busy XAXIDMA_DEVICE_TO_DMA False]"
    using last before unfolding mk by (simp add: map_const_upt)
  have "fst (cycle env n)
          = [XAxiDma_SimpleTransfer DMA_RX_BUFFER_ADDR MAX_PACKET_LENGTH XAXIDMA_DEVICE_TO_DMA]
              @ replicate k (XAxiDma_Busy XAXIDMA_DEVICE_TO_DMA True)
              @ [XAxiDma_Busy XAXIDMA_DEVICE_TO_DMA False,
                 Xil_DCacheFlushRange DMA_RX_BUFFER_ADDR MAX_PACKET_LENGTH]
              @ sample_loop (big_endian env) (memory env n) 0 DMA_RX_BUFFER_ADDR
              @ [Xil_printf separator, Usleep 500000]"
    unfolding cycle_completes[OF ok m] polls by simp
  moreover have "\<forall>j<k. r_XAxiDma_Busy env n j" "\<not> r_XAxiDma_Busy env n k"
    using last before unfolding k_def by simp_all
  moreover have "reads (sample_loop (big_endian env) (memory env n) 0 DMA_RX_BUFFER_ADDR)
                = reads (fst (cycle env n))"
    unfolding cycle_completes[OF ok m] by (simp add: reads_append reads_polls)
  ultimately show "\<exists>k. fst (cycle env n)
              = [XAxiDma_SimpleTransfer DMA_RX_BUFFER_ADDR MAX_PACKET_LENGTH XAXIDMA_DEVICE_TO_DMA]
                  @ replicate k (XAxiDma_Busy XAXIDMA_DEVICE_TO_DMA True)
                  @ [XAxiDma_Busy XAXIDMA_DEVICE_TO_DMA False,
                     Xil_DCacheFlushRange DMA_RX_BUFFER_ADDR MAX_PACKET_LENGTH]
                  @ sample_loop (big_endian env) (memory env n) 0 DMA_RX_BUFFER_ADDR
                  @ [Xil_printf separator, Usleep 500000]
            \<and> (\<forall>j<k. r_XAxiDma_Busy env n j) \<and> \<not> r_XAxiDma_Busy env n k
            \<and> reads (sample_loop (big_endian env) (memory env n) 0 DMA_RX_BUFFER_ADDR)
                = reads (fst (cycle env n))"
    by blast
next
  assume "r_XAxiDma_SimpleTransfer env n = XST_SUCCESS env \<and> (\<forall>j. r_XAxiDma_Busy env n j)"
  then show "cycle env n =
          ([XAxiDma_SimpleTransfer DMA_RX_BUFFER_ADDR MAX_PACKET_LENGTH XAXIDMA_DEVICE_TO_DMA],
           Hang)"
    by (simp add: cycle_hang busy_wait_always)
qed


lemma board_accepts: "r_XAxiDma_SimpleTransfer board n = XST_SUCCESS board"
  by (simp add: board_def)

lemma board_idle: "\<not> r_XAxiDma_Busy board n k"
  by (simp add: board_def)

lemma board_cycle_completes: "snd (cycle board n) = Continue"
  unfolding cycle_Continue_iff
  using busy_wait_terminates[of "r_XAxiDma_Busy board n" 0] board_idle[of n 0] board_accepts[of n]
  by simp

lemma board_codes: "map (raw_code board 0) [0..<5] = [0, 16384, 32768, 49152, 65535]"
  by (simp add: raw_code_def load_u16_def board_def ramp_memory_def DMA_RX_BUFFER_ADDR_def
      upt_rec word_cat_eq)

theorem C3_partial_consumption_witness:
  "snd (cycle board 0) = Continue
   \<and> reads (fst (cycle board 0)) = map (\<lambda>i. DMA_RX_BUFFER_ADDR + 2 * i) [0..<100]
   \<and> console (fst (cycle board 0))
       = map (\<lambda>i. sample_line (word_of_int
                (uint (ramp_memory (DMA_RX_BUFFER_ADDR + 2 * i))
                   + 256 * uint (ramp_memory (DMA_RX_BUFFER_ADDR + 2 * i + 1)))))
           [0..<100] @ [separator]
   \<and> reads (fst (cycle (board\<lparr>r_XAxiDma_SimpleTransfer := \<lambda>n. 5\<rparr>) 0)) = []
   \<and> reads (fst (cycle (board\<lparr>r_XAxiDma_Busy := \<lambda>n k. True\<rparr>) 0)) = []
   \<and> cycle (board\<lparr>memory := (memory board)(0 := ramp_memory(DMA_RX_BUFFER_ADDR + 200 := 0xFF))\<rparr>) 0
       = cycle board 0"
proof -
  have ok: "r_XAxiDma_SimpleTransfer board 0 = XST_SUCCESS board"
    by (rule board_accepts)
  have idle: "\<exists>j. \<not> r_XAxiDma_Busy board 0 j"
    using board_idle[of 0 0] by blast
  have be: "big_endian board = False" and mem: "memory board 0 = ramp_memory"
    by (simp_all add: board_def)
  from C3_partial_consumption[of board 0] ok idle
  have a: "snd (cycle board 0) = Continue"
    and b: "reads (fst (cycle board 0)) = map (\<lambda>i. DMA_RX_BUFFER_ADDR + 2 * i) [0..<100]"
    and c: "console (fst (cycle board 0))
       = map (\<lambda>i. sample_line (word_of_int
                (uint (ramp_memory (DMA_RX_BUFFER_ADDR + 2 * i))
                   + 256 * uint (ramp_memory (DMA_RX_BUFFER_ADDR + 2 * i + 1)))))
           [0..<100] @ [separator]"
    unfolding be mem by (simp_all only: if_False simp_thms)
  have rej: "r_XAxiDma_SimpleTransfer (board\<lparr>r_XAxiDma_SimpleTransfer := \<lambda>n. 5\<rparr>) 0
               \<noteq> XST_SUCCESS (board\<lparr>r_XAxiDma_SimpleTransfer := \<lambda>n. 5\<rparr>)"
    by (simp add: board_def)
  from C3_partial_consumption[of "board\<lparr>r_XAxiDma_SimpleTransfer := \<lambda>n. 5\<rparr>" 0] rej
  have d: "reads (fst (cycle (board\<lparr>r_XAxiDma_SimpleTransfer := \<lambda>n. 5\<rparr>) 0)) = []"
    by blast
  have busy: "r_XAxiDma_SimpleTransfer (board\<lparr>r_XAxiDma_Busy := \<lambda>n k. True\<rparr>) 0
               = XST_SUCCESS (board\<lparr>r_XAxiDma_Busy := \<lambda>n k. True\<rparr>)
              \<and> (\<forall>j. r_XAxiDma_Busy (board\<lparr>r_XAxiDma_Busy := \<lambda>n k. True\<rparr>) 0 j)"
    by (simp add: board_def)
  from C3_partial_consumption[of "board\<lparr>r_XAxiDma_Busy := \<lambda>n k. True\<rparr>" 0] busy
  have e: "reads (fst (cycle (board\<lparr>r_XAxiDma_Busy := \<lambda>n k. True\<rparr>) 0)) = []"
    by blast
  have h: "\<forall>a. DMA_RX_BUFFER_ADDR \<le> a \<and> a < DMA_RX_BUFFER_ADDR + 200
        \<longrightarrow> (ramp_memory(DMA_RX_BUFFER_ADDR + 200 := 0xFF)) a = memory board 0 a"
    by (simp add: board_def)
  from C3_partial_consumption[of board 0] h
  have f: "cycle (board\<lparr>memory := (memory board)(0 := ramp_memory(DMA_RX_BUFFER_ADDR + 200 := 0xFF))\<rparr>) 0
       = cycle board 0"
    by blast
  from a b c d e f show ?thesis by blast
qed

text \<open>
  C2. When the buffer starts with the codes 0, 16384, 32768, 49152, 65535, one acquisition
  cycle prints exactly 100 readings, one for each of the first 100 codes in ascending
  order, and then exactly one separator line; the first five readings are 0.000, 0.250,
  0.500, 0.750 and 0.999.
\<close>

theorem C2_end_to_end:
  assumes "r_XAxiDma_SimpleTransfer env n = XST_SUCCESS env"
    and "\<not> r_XAxiDma_Busy env n j"
    and "map (raw_code env n) [0..<5] = [0, 16384, 32768, 49152, 65535]"
  shows "console (fst (cycle env n))
           = map (\<lambda>i. sample_line (raw_code env n i)) [0..<100] @ [separator]
         \<and> length (console (fst (cycle env n))) = 101
         \<and> take 5 (console (fst (cycle env n)))
             = [''0.000 volts'' @ [CR, LF], ''0.250 volts'' @ [CR, LF], ''0.500 volts'' @ [CR, LF],
                ''0.750 volts'' @ [CR, LF], ''0.999 volts'' @ [CR, LF]]"
proof -
  have "snd (cycle env n) = Continue"
    unfolding cycle_Continue_iff
    using busy_wait_terminates[of "r_XAxiDma_Busy env n" j] assms(1,2) by simp
  then have c: "console (fst (cycle env n))
           = map (\<lambda>i. sample_line (raw_code env n i)) [0..<100] @ [separator]"
    by (simp add: console_cycle_completes batch_def)
  have "take 5 (console (fst (cycle env n))) = map sample_line (map (raw_code env n) [0..<5])"
    unfolding c by (simp add: take_map)
  also have "\<dots> = [''0.000 volts'' @ [CR, LF], ''0.250 volts'' @ [CR, LF], ''0.500 volts'' @ [CR, LF],
                ''0.750 volts'' @ [CR, LF], ''0.999 volts'' @ [CR, LF]]"
    unfolding assms(3) using first_five by simp
  finally show ?thesis using c by simp
qed

theorem C2_end_to_end_witness:
  "r_XAxiDma_SimpleTransfer board 0 = XST_SUCCESS board
   \<and> \<not> r_XAxiDma_Busy board 0 0
   \<and> map (raw_code board 0) [0..<5] = [0, 16384, 32768, 49152, 65535]
   \<and> length (console (fst (cycle board 0))) = 101
   \<and> take 5 (console (fst (cycle board 0)))
             = [''0.000 volts'' @ [CR, LF], ''0.250 volts'' @ [CR, LF], ''0.500 volts'' @ [CR, LF],
                ''0.750 volts'' @ [CR, LF], ''0.999 volts'' @ [CR, LF]]"
  using C2_end_to_end[OF board_accepts board_idle board_codes] board_accepts board_idle board_codes
  by blast

theorem C5_cycle_order_witness:
  "snd (cycle board 0) = Continue
   \<and> fst (cycle board 0)
       = [XAxiDma_SimpleTransfer DMA_RX_BUFFER_ADDR MAX_PACKET_LENGTH XAXIDMA_DEVICE_TO_DMA,
          XAxiDma_Busy XAXIDMA_DEVICE_TO_DMA False,
          Xil_DCacheFlushRange DMA_RX_BUFFER_ADDR MAX_PACKET_LENGTH]
           @ sample_loop False ramp_memory 0 DMA_RX_BUFFER_ADDR
           @ [Xil_printf separator, Usleep 500000]
   \<and> r_XAxiDma_SimpleTransfer (board\<lparr>r_XAxiDma_Busy := \<lambda>n k. True\<rparr>) 0
       = XST_SUCCESS (board\<lparr>r_XAxiDma_Busy := \<lambda>n k. True\<rparr>)
   \<and> (\<forall>j. r_XAxiDma_Busy (board\<lparr>r_XAxiDma_Busy := \<lambda>n k. True\<rparr>) 0 j)
   \<and> cycle (board\<lparr>r_XAxiDma_Busy := \<lambda>n k. True\<rparr>) 0
       = ([XAxiDma_SimpleTransfer DMA_RX_BUFFER_ADDR MAX_PACKET_LENGTH XAXIDMA_DEVICE_TO_DMA], Hang)"
proof -
  have a: "snd (cycle board 0) = Continue"
    by (rule board_cycle_completes)
  from C5_cycle_order[of board 0] a obtain k where
    t: "fst (cycle board 0)
          = [XAxiDma_SimpleTransfer DMA_RX_BUFFER_ADDR MAX_PACKET_LENGTH XAXIDMA_DEVICE_TO_DMA]
              @ replicate k (XAxiDma_Busy XAXIDMA_DEVICE_TO_DMA True)
              @ [XAxiDma_Busy XAXIDMA_DEVICE_TO_DMA False,
                 Xil_DCacheFlushRange DMA_RX_BUFFER_ADDR MAX_PACKET_LENGTH]
              @ sample_loop (big_endian board) (memory board 0) 0 DMA_RX_BUFFER_ADDR
              @ [Xil_printf separator, Usleep 500000]"
    and k: "\<forall>j<k. r_XAxiDma_Busy board 0 j"
    by blast
  have "k = 0"
    using k board_idle[of 0 0] by (cases k) auto
  with t have b: "fst (cycle board 0)
       = [XAxiDma_SimpleTransfer DMA_RX_BUFFER_ADDR MAX_PACKET_LENGTH XAXIDMA_DEVICE_TO_DMA,
          XAxiDma_Busy XAXIDMA_DEVICE_TO_DMA False,
          Xil_DCacheFlushRange DMA_RX_BUFFER_ADDR MAX_PACKET_LENGTH]
           @ sample_loop False ramp_memory 0 DMA_RX_BUFFER_ADDR
           @ [Xil_printf separator, Usleep 500000]"
    by (simp add: board_def)
  have c: "r_XAxiDma_SimpleTransfer (board\<lparr>r_XAxiDma_Busy := \<lambda>n k. True\<rparr>) 0
       = XST_SUCCESS (board\<lparr>r_XAxiDma_Busy := \<lambda>n k. True\<rparr>)"
    by (simp add: board_def)
  have d: "\<forall>j. r_XAxiDma_Busy (board\<lparr>r_XAxiDma_Busy := \<lambda>n k. True\<rparr>) 0 j"
    by simp
  from C5_cycle_order[of "board\<lparr>r_XAxiDma_Busy := \<lambda>n k. True\<rparr>" 0] c d
  have "cycle (board\<lparr>r_XAxiDma_Busy := \<lambda>n k. True\<rparr>) 0
       = ([XAxiDma_SimpleTransfer DMA_RX_BUFFER_ADDR MAX_PACKET_LENGTH XAXIDMA_DEVICE_TO_DMA], Hang)"
    by blast
  with a b c d show ?thesis by blast
qed

section \<open>Properties of a run of \<^verbatim>\<open>main\<close>\<close>

lemma main_loop_Suc_Continue:
  "snd (cycle env n) = Continue \<Longrightarrow>
   main_loop env (Suc fuel) n
     = (fst (cycle env n) @ fst (main_loop env fuel (Suc n)), snd (main_loop env fuel (Suc n)))"
  by (simp add: split_beta)

lemma main_loop_Suc_stop:
  "snd (cycle env n) \<noteq> Continue \<Longrightarrow> main_loop env (Suc fuel) n = cycle env n"
  by (simp add: split_beta)

lemma main_init_stops:
  "snd (initialization env) \<noteq> Continue \<Longrightarrow> main env fuel = initialization env"
  by (simp add: main_def split_beta)

lemma main_init_completes:
  "snd (initialization env) = Continue \<Longrightarrow>
   main env fuel
     = (fst (initialization env) @ fst (main_loop env fuel 0), snd (main_loop env fuel 0))"
  by (simp add: main_def split_beta)

lemma upt_Suc_shift: "[0..<Suc m] = 0 # map Suc [0..<m]"
  by (simp add: upt_conv_Cons map_Suc_upt del: upt_Suc)

lemma cycle_no_setting: "e \<in> set (fst (cycle env n)) \<Longrightarrow> \<not> is_sysmon_setting e"
  using sample_loop_events[of e "big_endian env" "memory env n" 0 DMA_RX_BUFFER_ADDR]
  by (auto simp: cycle_def Let_def split: if_splits option.splits)

lemma main_loop_no_setting:
  "e \<in> set (fst (main_loop env fuel n)) \<Longrightarrow> \<not> is_sysmon_setting e"
proof (induction fuel arbitrary: n)
  case 0
  then show ?case by simp
next
  case (Suc fuel)
  show ?case
  proof (cases "snd (cycle env n) = Continue")
    case True
    from Suc.prems have "e \<in> set (fst (cycle env n)) \<or> e \<in> set (fst (main_loop env fuel (Suc n)))"
      unfolding main_loop_Suc_Continue[OF True] by simp
    then show ?thesis using cycle_no_setting Suc.IH by blast
  next
    case False
    from Suc.prems show ?thesis
      unfolding main_loop_Suc_stop[OF False] by (rule cycle_no_setting)
  qed
qed

lemma initialization_shape:
  assumes "r_XSysMon_LookupConfig env (SYSMON_INSTANCE_ID env) = Some cfg"
  shows "\<exists>r. fst (initialization env)
               = [Init_platform, Print (''Entering the main'' @ [LF, CR]),
                  XSysMon_LookupConfig (SYSMON_INSTANCE_ID env),
                  XSysMon_CfgInitialize (BaseAddress cfg)] @ sysmon_configuration @ r
             \<and> (\<forall>e \<in> set r. \<not> is_sysmon_setting e)"
  using assms by (auto simp: initialization_def Let_def split: option.splits)

text \<open>
  C4. When the monitor's configuration is found, the run starts with the lookup and the
  binding and then performs exactly five settings, in this order: Safe sequencer mode,
  all alarms disabled, the channel selection, the clock divisor, ContinuousPass mode.
  No other setting of the monitor follows, neither between them nor later.
\<close>

theorem C4_configuration_order:
  assumes "r_XSysMon_LookupConfig env (SYSMON_INSTANCE_ID env) = Some cfg"
  shows "\<exists>rest. fst (main env fuel)
           = [Init_platform, Print (''Entering the main'' @ [LF, CR]),
              XSysMon_LookupConfig (SYSMON_INSTANCE_ID env),
              XSysMon_CfgInitialize (BaseAddress cfg),
              XSysMon_SetSequencerMode XSM_SEQ_MODE_SAFE,
              XSysMon_SetAlarmEnables 0,
              XSysMon_SetSeqChEnables XSM_SEQ_CH_VPVN,
              XSysMon_SetAdcClkDivisor 32,
              XSysMon_SetSequencerMode XSM_SEQ_MODE_CONTINPASS] @ rest
         \<and> (\<forall>e \<in> set rest. \<not> is_sysmon_setting e)"
proof -
  from initialization_shape[OF assms] obtain r where
    i: "fst (initialization env)
          = [Init_platform, Print (''Entering the main'' @ [LF, CR]),
             XSysMon_LookupConfig (SYSMON_INSTANCE_ID env),
             XSysMon_CfgInitialize (BaseAddress cfg)] @ sysmon_configuration @ r"
    and r: "\<forall>e \<in> set r. \<not> is_sysmon_setting e"
    by blast
  show ?thesis
  proof (cases "snd (initialization env) = Continue")
    case True
    have "fst (main env fuel)
           = [Init_platform, Print (''Entering the main'' @ [LF, CR]),
              XSysMon_LookupConfig (SYSMON_INSTANCE_ID env),
              XSysMon_CfgInitialize (BaseAddress cfg),
              XSysMon_SetSequencerMode XSM_SEQ_MODE_SAFE,
              XSysMon_SetAlarmEnables 0,
              XSysMon_SetSeqChEnables XSM_SEQ_CH_VPVN,
              XSysMon_SetAdcClkDivisor 32,
              XSysMon_SetSequencerMode XSM_SEQ_MODE_CONTINPASS] @ (r @ fst (main_loop env fuel 0))"
      by (simp add: main_init_completes[OF True] i sysmon_configuration_def)
    moreover have "\<forall>e \<in> set (r @ fst (main_loop env fuel 0)). \<not> is_sysmon_setting e"
      using r main_loop_no_setting by auto
    ultimately show ?thesis by blast
  next
    case False
    have "fst (main env fuel)
           = [Init_platform, Print (''Entering the main'' @ [LF, CR]),
              XSysMon_LookupConfig (SYSMON_INSTANCE_ID env),
              XSysMon_CfgInitialize (BaseAddress cfg),
              XSysMon_SetSequencerMode XSM_SEQ_MODE_SAFE,
              XSysMon_SetAlarmEnables 0,
              XSysMon_SetSeqChEnables XSM_SEQ_CH_VPVN,
              XSysMon_SetAdcClkDivisor 32,
              XSysMon_SetSequencerMode XSM_SEQ_MODE_CONTINPASS] @ r"
      by (simp add: main_init_stops[OF False] i sysmon_configuration_def)
    with r show ?thesis by blast
  qed
qed

lemma board_sysmon_found:
  "r_XSysMon_LookupConfig board (SYSMON_INSTANCE_ID board) = Some \<lparr>BaseAddress = 0x43C00000\<rparr>"
  by (simp add: board_def)

theorem C4_configuration_order_witness:
  "r_XSysMon_LookupConfig board (SYSMON_INSTANCE_ID board) = Some \<lparr>BaseAddress = 0x43C00000\<rparr>
   \<and> (\<exists>rest. fst (main board 1)
           = [Init_platform, Print (''Entering the main'' @ [LF, CR]),
              XSysMon_LookupConfig (SYSMON_INSTANCE_ID board),
              XSysMon_CfgInitialize 0x43C00000,
              XSysMon_SetSequencerMode XSM_SEQ_MODE_SAFE,
              XSysMon_SetAlarmEnables 0,
              XSysMon_SetSeqChEnables XSM_SEQ_CH_VPVN,
              XSysMon_SetAdcClkDivisor 32,
              XSysMon_SetSequencerMode XSM_SEQ_MODE_CONTINPASS] @ rest)"
  using C4_configuration_order[OF board_sysmon_found, of 1] board_sysmon_found by auto

text \<open>
  C6. If the lookup of the monitor's or of the engine's configuration finds nothing, the
  program returns the failure status; no acquisition cycle has run and no transfer has been
  submitted.
\<close>

theorem C6_missing_config_stops_before_cycles:
  assumes "r_XSysMon_LookupConfig env (SYSMON_INSTANCE_ID env) = None
           \<or> r_XAxiDma_LookupConfig env (AXI_DMA_INSTANCE_ID env) = None"
  shows "snd (main env fuel) = Exit (XST_FAILURE env)
         \<and> transfers (fst (main env fuel)) = []
         \<and> (\<forall>e \<in> set (fst (main env fuel)). \<not> is_cycle_event e)"
proof -
  have i: "snd (initialization env) = Exit (XST_FAILURE env)"
    using assms by (auto simp: initialization_def Let_def split: option.splits)
  then have m: "main env fuel = initialization env"
    by (simp add: main_init_stops)
  have "transfers (fst (initialization env)) = []"
    using assms
    by (auto simp: initialization_def Let_def sysmon_configuration_def split: option.splits)
  moreover have "\<forall>e \<in> set (fst (initialization env)). \<not> is_cycle_event e"
    using assms
    by (auto simp: initialization_def Let_def sysmon_configuration_def split: option.splits)
  ultimately show ?thesis using i m by simp
qed

theorem C6_missing_config_stops_before_cycles_witness:
  "r_XSysMon_LookupConfig (board\<lparr>r_XSysMon_LookupConfig := \<lambda>dev. None\<rparr>)
       (SYSMON_INSTANCE_ID (board\<lparr>r_XSysMon_LookupConfig := \<lambda>dev. None\<rparr>)) = None
   \<and> snd (main (board\<lparr>r_XSysMon_LookupConfig := \<lambda>dev. None\<rparr>) 3) = Exit 1
   \<and> transfers (fst (main (board\<lparr>r_XSysMon_LookupConfig := \<lambda>dev. None\<rparr>) 3)) = []
   \<and> r_XAxiDma_LookupConfig (board\<lparr>r_XAxiDma_LookupConfig := \<lambda>dev. None\<rparr>)
       (AXI_DMA_INSTANCE_ID (board\<lparr>r_XAxiDma_LookupConfig := \<lambda>dev. None\<rparr>)) = None
   \<and> snd (main (board\<lparr>r_XAxiDma_LookupConfig := \<lambda>dev. None\<rparr>) 3) = Exit 1
   \<and> transfers (fst (main (board\<lparr>r_XAxiDma_LookupConfig := \<lambda>dev. None\<rparr>) 3)) = []"
  using C6_missing_config_stops_before_cycles[of "board\<lparr>r_XSysMon_LookupConfig := \<lambda>dev. None\<rparr>" 3]
    C6_missing_config_stops_before_cycles[of "board\<lparr>r_XAxiDma_LookupConfig := \<lambda>dev. None\<rparr>" 3]
  by (simp add: board_def)


lemma main_loop_run:
  "(\<forall>j<m. snd (cycle env (n + j)) = Continue) \<Longrightarrow>
   main_loop env (m + fuel) n
     = (concat (map (\<lambda>j. fst (cycle env (n + j))) [0..<m]) @ fst (main_loop env fuel (n + m)),
        snd (main_loop env fuel (n + m)))"
proof (induction m arbitrary: n)
  case 0
  then show ?case by simp
next
  case (Suc m)
  have c: "snd (cycle env n) = Continue"
    using Suc.prems by (metis add.right_neutral zero_less_Suc)
  have "\<forall>j<m. snd (cycle env (Suc n + j)) = Continue"
  proof (intro allI impI)
    fix j assume "j < m"
    then have "snd (cycle env (n + Suc j)) = Continue" using Suc.prems by (simp del: add_Suc_right)
    then show "snd (cycle env (Suc n + j)) = Continue" by simp
  qed
  from Suc.IH[OF this] have
    ih: "main_loop env (m + fuel) (Suc n)
           = (concat (map (\<lambda>j. fst (cycle env (Suc n + j))) [0..<m])
                @ fst (main_loop env fuel (Suc n + m)),
              snd (main_loop env fuel (Suc n + m)))" .
  have "main_loop env (Suc m + fuel) n = main_loop env (Suc (m + fuel)) n" by simp
  also have "\<dots> = (fst (cycle env n) @ fst (main_loop env (m + fuel) (Suc n)),
                    snd (main_loop env (m + fuel) (Suc n)))"
    by (rule main_loop_Suc_Continue[OF c])
  finally show ?case
    unfolding ih upt_Suc_shift by (simp add: comp_def)
qed

lemma transfers_resets: "transfers (map (\<lambda>j. XAxiDma_ResetIsDone (f j)) xs) = []"
  by (induction xs) simp_all

lemma console_resets: "console (map (\<lambda>j. XAxiDma_ResetIsDone (f j)) xs) = []"
  by (induction xs) simp_all

lemma transfers_initialization: "transfers (fst (initialization env)) = []"
  by (simp add: initialization_def Let_def sysmon_configuration_def transfers_append
      transfers_resets split: option.splits)

lemma transfers_cycles:
  "length (transfers (concat (map (\<lambda>j. fst (cycle env (f j))) xs))) = length xs"
  by (induction xs) (simp_all add: transfers_append transfers_cycle)

text \<open>
  C8. A transfer that is rejected in a running cycle is fatal: the program prints the
  failure message with the status and returns the failure status. The rejected transfer is
  submitted once and not again.
\<close>

theorem C8_rejected_submit_is_fatal:
  assumes "snd (initialization env) = Continue"
    and "\<forall>j<n. snd (cycle env j) = Continue"
    and "r_XAxiDma_SimpleTransfer env n \<noteq> XST_SUCCESS env"
    and "n < fuel"
  shows "snd (main env fuel) = Exit (XST_FAILURE env)
         \<and> (\<exists>pre. fst (main env fuel)
               = pre @ [XAxiDma_SimpleTransfer DMA_RX_BUFFER_ADDR MAX_PACKET_LENGTH
                          XAXIDMA_DEVICE_TO_DMA,
                        Printf (transfer_failed_msg (r_XAxiDma_SimpleTransfer env n))])
         \<and> length (transfers (fst (main env fuel))) = Suc n"
proof -
  from less_imp_Suc_add[OF assms(4)] obtain g where "fuel = Suc (n + g)" ..
  then have fuel: "fuel = n + Suc g" by simp
  have stop: "snd (cycle env n) \<noteq> Continue"
    using assms(3) by (simp add: cycle_Continue_iff)
  have "\<forall>j<n. snd (cycle env (0 + j)) = Continue"
    using assms(2) by simp
  from main_loop_run[OF this, of "Suc g"]
  have loop: "main_loop env fuel 0
           = (concat (map (\<lambda>j. fst (cycle env j)) [0..<n])
                @ [XAxiDma_SimpleTransfer DMA_RX_BUFFER_ADDR MAX_PACKET_LENGTH XAXIDMA_DEVICE_TO_DMA,
                   Printf (transfer_failed_msg (r_XAxiDma_SimpleTransfer env n))],
              Exit (XST_FAILURE env))"
    unfolding fuel by (simp only: add_0 main_loop_Suc_stop[OF stop] cycle_rejected[OF assms(3)]
        fst_conv snd_conv)
  have m: "main env fuel
     = (fst (initialization env) @ fst (main_loop env fuel 0), snd (main_loop env fuel 0))"
    by (rule main_init_completes[OF assms(1)])
  have a: "snd (main env fuel) = Exit (XST_FAILURE env)"
    unfolding m loop by simp
  have b: "fst (main env fuel)
             = (fst (initialization env) @ concat (map (\<lambda>j. fst (cycle env j)) [0..<n]))
                 @ [XAxiDma_SimpleTransfer DMA_RX_BUFFER_ADDR MAX_PACKET_LENGTH
                      XAXIDMA_DEVICE_TO_DMA,
                    Printf (transfer_failed_msg (r_XAxiDma_SimpleTransfer env n))]"
    unfolding m loop by simp
  have c: "length (transfers (fst (main env fuel))) = Suc n"
    unfolding b using transfers_cycles[of env "\<lambda>j. j" "[0..<n]"]
    by (simp add: transfers_append transfers_initialization)
  from a b c show ?thesis by blast
qed

lemma board_initialization_completes:
  "snd (initialization (board\<lparr>r_XAxiDma_SimpleTransfer := f, r_XSysMon_CfgInitialize := s\<rparr>))
     = Continue"
  by (simp add: initialization_def Let_def board_def reset_wait_now SYSMON_INSTANCE_ID_def
      AXI_DMA_INSTANCE_ID_def)

theorem C8_rejected_submit_is_fatal_witness:
  "snd (initialization (board\<lparr>r_XAxiDma_SimpleTransfer := \<lambda>n. if n = 1 then 5 else 0\<rparr>)) = Continue
   \<and> snd (cycle (board\<lparr>r_XAxiDma_SimpleTransfer := \<lambda>n. if n = 1 then 5 else 0\<rparr>) 0) = Continue
   \<and> r_XAxiDma_SimpleTransfer (board\<lparr>r_XAxiDma_SimpleTransfer := \<lambda>n. if n = 1 then 5 else 0\<rparr>) 1
       \<noteq> XST_SUCCESS (board\<lparr>r_XAxiDma_SimpleTransfer := \<lambda>n. if n = 1 then 5 else 0\<rparr>)
   \<and> (1::nat) < 2
   \<and> snd (main (board\<lparr>r_XAxiDma_SimpleTransfer := \<lambda>n. if n = 1 then 5 else 0\<rparr>) 2) = Exit 1
   \<and> length (transfers
        (fst (main (board\<lparr>r_XAxiDma_SimpleTransfer := \<lambda>n. if n = 1 then 5 else 0\<rparr>) 2))) = 2"
proof -
  let ?env = "board\<lparr>r_XAxiDma_SimpleTransfer := \<lambda>n. if n = 1 then 5 else 0\<rparr>"
  have a: "snd (initialization ?env) = Continue"
    using board_initialization_completes[where f = "\<lambda>n. if n = 1 then 5 else 0" and s = 0]
    by (simp add: board_def)
  have b: "\<forall>j<1. snd (cycle ?env j) = Continue"
    by (simp add: cycle_Continue_iff board_def busy_wait_now)
  have c: "r_XAxiDma_SimpleTransfer ?env 1 \<noteq> XST_SUCCESS ?env"
    by (simp add: board_def)
  have d: "(1::nat) < 2" by simp
  from C8_rejected_submit_is_fatal[OF a b c d] a b c d show ?thesis
    by (simp add: board_def)
qed

lemma console_initialization:
  "\<exists>d. console (fst (initialization env)) = [''Entering the main'' @ [LF, CR]] @ d
       \<and> (d = []
          \<or> snd (initialization env) \<noteq> Continue
             \<and> (d = [no_config_msg (AXI_DMA_INSTANCE_ID env)]
                \<or> d = [init_failed_msg (r_XAxiDma_CfgInitialize env)]))"
  by (simp add: initialization_def Let_def sysmon_configuration_def console_append
      console_resets split: option.splits)

lemma console_cycle_cases:
  "snd (cycle env n) \<noteq> Continue \<Longrightarrow>
   console (fst (cycle env n)) = []
   \<or> console (fst (cycle env n)) = [transfer_failed_msg (r_XAxiDma_SimpleTransfer env n)]"
  by (simp add: cycle_def Let_def split: if_splits option.splits)

lemma console_main_loop:
  "\<exists>k d. k \<le> fuel
     \<and> console (fst (main_loop env fuel n)) = concat (map (batch env) [n..<n + k]) @ d
     \<and> (d = [] \<or> d = [transfer_failed_msg (r_XAxiDma_SimpleTransfer env (n + k))])"
proof (induction fuel arbitrary: n)
  case 0
  have "0 \<le> (0::nat) \<and> console (fst (main_loop env 0 n)) = concat (map (batch env) [n..<n + 0]) @ []
        \<and> ([] = [] \<or> [] = [transfer_failed_msg (r_XAxiDma_SimpleTransfer env (n + 0))])"
    by simp
  then show ?case by blast
next
  case (Suc fuel)
  show ?case
  proof (cases "snd (cycle env n) = Continue")
    case True
    from Suc.IH[of "Suc n"] obtain k d where k: "k \<le> fuel"
      and c: "console (fst (main_loop env fuel (Suc n))) = concat (map (batch env) [Suc n..<Suc n + k]) @ d"
      and d: "d = [] \<or> d = [transfer_failed_msg (r_XAxiDma_SimpleTransfer env (Suc n + k))]"
      by blast
    have u: "[n..<n + Suc k] = n # [Suc n..<Suc n + k]"
      by (simp add: upt_conv_Cons del: upt_Suc)
    have "console (fst (main_loop env (Suc fuel) n))
            = concat (map (batch env) [n..<n + Suc k]) @ d"
      unfolding main_loop_Suc_Continue[OF True] u
      by (simp add: console_append console_cycle_completes[OF True] c)
    moreover have "Suc k \<le> Suc fuel" using k by simp
    moreover have "d = [] \<or> d = [transfer_failed_msg (r_XAxiDma_SimpleTransfer env (n + Suc k))]"
      using d by simp
    ultimately show ?thesis by blast
  next
    case False
    have "console (fst (main_loop env (Suc fuel) n))
            = concat (map (batch env) [n..<n + 0]) @ console (fst (cycle env n))"
      unfolding main_loop_Suc_stop[OF False] by simp
    moreover have "console (fst (cycle env n)) = []
      \<or> console (fst (cycle env n)) = [transfer_failed_msg (r_XAxiDma_SimpleTransfer env (n + 0))]"
      using console_cycle_cases[OF False] by simp
    moreover have "0 \<le> Suc fuel" by simp
    ultimately show ?thesis by blast
  qed
qed

text \<open>
  C10. The console output of a run is the greeting, then a whole number of complete
  batches, then at most one failure message. Every batch is 100 readings followed by the
  separator, and a cycle whose transfer is rejected prints the failure message only, no
  reading.
\<close>

theorem C10_whole_batches:
  "(\<exists>k diag. k \<le> fuel
      \<and> console (fst (main env fuel))
          = [''Entering the main'' @ [LF, CR]] @ concat (map (batch env) [0..<k]) @ diag
      \<and> (diag = []
         \<or> diag = [no_config_msg (AXI_DMA_INSTANCE_ID env)]
         \<or> diag = [init_failed_msg (r_XAxiDma_CfgInitialize env)]
         \<or> diag = [transfer_failed_msg (r_XAxiDma_SimpleTransfer env k)]))
   \<and> length (batch env n) = 101
   \<and> butlast (batch env n) = map (\<lambda>i. sample_line (raw_code env n i)) [0..<100]
   \<and> last (batch env n) = separator
   \<and> (r_XAxiDma_SimpleTransfer env n \<noteq> XST_SUCCESS env \<longrightarrow>
        cycle env n
          = ([XAxiDma_SimpleTransfer DMA_RX_BUFFER_ADDR MAX_PACKET_LENGTH XAXIDMA_DEVICE_TO_DMA,
              Printf (transfer_failed_msg (r_XAxiDma_SimpleTransfer env n))],
             Exit (XST_FAILURE env)))"
proof -
  have main: "\<exists>k diag. k \<le> fuel
      \<and> console (fst (main env fuel))
          = [''Entering the main'' @ [LF, CR]] @ concat (map (batch env) [0..<k]) @ diag
      \<and> (diag = []
         \<or> diag = [no_config_msg (AXI_DMA_INSTANCE_ID env)]
         \<or> diag = [init_failed_msg (r_XAxiDma_CfgInitialize env)]
         \<or> diag = [transfer_failed_msg (r_XAxiDma_SimpleTransfer env k)])"
  proof (cases "snd (initialization env) = Continue")
    case True
    from console_initialization[of env] True
    have i: "console (fst (initialization env)) = [''Entering the main'' @ [LF, CR]]"
      by auto
    from console_main_loop[of fuel env 0] obtain k d where k: "k \<le> fuel"
      and c: "console (fst (main_loop env fuel 0)) = concat (map (batch env) [0..<k]) @ d"
      and d: "d = [] \<or> d = [transfer_failed_msg (r_XAxiDma_SimpleTransfer env k)]"
      by auto
    have "console (fst (main env fuel))
          = [''Entering the main'' @ [LF, CR]] @ concat (map (batch env) [0..<k]) @ d"
      unfolding main_init_completes[OF True] by (simp add: console_append i c)
    with k d show ?thesis by blast
  next
    case False
    from console_initialization[of env] obtain d where
      i: "console (fst (initialization env)) = [''Entering the main'' @ [LF, CR]] @ d"
      and d: "d = [] \<or> d = [no_config_msg (AXI_DMA_INSTANCE_ID env)]
                \<or> d = [init_failed_msg (r_XAxiDma_CfgInitialize env)]"
      by blast
    have "console (fst (main env fuel))
          = [''Entering the main'' @ [LF, CR]] @ concat (map (batch env) [0..<0]) @ d"
      unfolding main_init_stops[OF False] i by simp
    moreover have "0 \<le> fuel" by simp
    ultimately show ?thesis using d by blast
  qed
  have b: "length (batch env n) = 101"
    "butlast (batch env n) = map (\<lambda>i. sample_line (raw_code env n i)) [0..<100]"
    "last (batch env n) = separator"
    by (simp_all add: batch_def)
  from main b cycle_rejected[of env n] show ?thesis by blast
qed

theorem C10_whole_batches_witness:
  "r_XAxiDma_SimpleTransfer (board\<lparr>r_XAxiDma_SimpleTransfer := \<lambda>n. 5\<rparr>) 0
     \<noteq> XST_SUCCESS (board\<lparr>r_XAxiDma_SimpleTransfer := \<lambda>n. 5\<rparr>)
   \<and> console (fst (cycle (board\<lparr>r_XAxiDma_SimpleTransfer := \<lambda>n. 5\<rparr>) 0))
       = [transfer_failed_msg 5]"
proof -
  have a: "r_XAxiDma_SimpleTransfer (board\<lparr>r_XAxiDma_SimpleTransfer := \<lambda>n. 5\<rparr>) 0
     \<noteq> XST_SUCCESS (board\<lparr>r_XAxiDma_SimpleTransfer := \<lambda>n. 5\<rparr>)"
    by (simp add: board_def)
  from C10_whole_batches[of 0 "board\<lparr>r_XAxiDma_SimpleTransfer := \<lambda>n. 5\<rparr>" 0] a
  have "cycle (board\<lparr>r_XAxiDma_SimpleTransfer := \<lambda>n. 5\<rparr>) 0
          = ([XAxiDma_SimpleTransfer DMA_RX_BUFFER_ADDR MAX_PACKET_LENGTH XAXIDMA_DEVICE_TO_DMA,
              Printf (transfer_failed_msg
                (r_XAxiDma_SimpleTransfer (board\<lparr>r_XAxiDma_SimpleTransfer := \<lambda>n. 5\<rparr>) 0))],
             Exit (XST_FAILURE (board\<lparr>r_XAxiDma_SimpleTransfer := \<lambda>n. 5\<rparr>)))"
    by blast
  then show ?thesis using a by simp
qed

lemma board_cycle0:
  "snd (cycle (board\<lparr>r_XSysMon_CfgInitialize := s\<rparr>) 0) = Continue"
  by (simp add: cycle_Continue_iff board_def busy_wait_now)

text \<open>
  C7. A rejected register initialization of the monitor should end the start-up, as a
  rejected initialization of the engine does. On the example board with
  \<^verbatim>\<open>XSysMon_CfgInitialize\<close> returning the failure status, the program nevertheless
  completes the initialization and submits the transfer of the first cycle.
\<close>

theorem C7_sysmon_status_ignored:
  "r_XSysMon_CfgInitialize (board\<lparr>r_XSysMon_CfgInitialize := 1\<rparr>)
     = XST_FAILURE (board\<lparr>r_XSysMon_CfgInitialize := 1\<rparr>)
   \<and> r_XSysMon_CfgInitialize (board\<lparr>r_XSysMon_CfgInitialize := 1\<rparr>)
       \<noteq> XST_SUCCESS (board\<lparr>r_XSysMon_CfgInitialize := 1\<rparr>)
   \<and> snd (initialization (board\<lparr>r_XSysMon_CfgInitialize := 1\<rparr>)) = Continue
   \<and> snd (main (board\<lparr>r_XSysMon_CfgInitialize := 1\<rparr>) 1) = Continue
   \<and> transfers (fst (main (board\<lparr>r_XSysMon_CfgInitialize := 1\<rparr>) 1))
       = [XAxiDma_SimpleTransfer DMA_RX_BUFFER_ADDR MAX_PACKET_LENGTH XAXIDMA_DEVICE_TO_DMA]"
proof -
  let ?env = "board\<lparr>r_XSysMon_CfgInitialize := 1\<rparr>"
  have s: "r_XSysMon_CfgInitialize ?env = XST_FAILURE ?env"
    "r_XSysMon_CfgInitialize ?env \<noteq> XST_SUCCESS ?env"
    by (simp_all add: board_def)
  have i: "snd (initialization ?env) = Continue"
    using board_initialization_completes[where f = "\<lambda>n. 0" and s = 1]
    by (simp add: board_def)
  have c: "snd (cycle ?env 0) = Continue"
    by (rule board_cycle0)
  have m: "main ?env 1
     = (fst (initialization ?env) @ fst (cycle ?env 0), Continue)"
    unfolding main_init_completes[OF i] One_nat_def main_loop_Suc_Continue[OF c] by simp
  have "transfers (fst (main ?env 1))
       = [XAxiDma_SimpleTransfer DMA_RX_BUFFER_ADDR MAX_PACKET_LENGTH XAXIDMA_DEVICE_TO_DMA]"
    unfolding m by (simp add: transfers_append transfers_initialization transfers_cycle)
  with s i m show ?thesis by simp
qed

end
